theory Spec2Isabelle
  imports Main "HOL-Library.Code_Target_Nat"
begin

section \<open>The element type\<close>

text \<open>
  \<open>Vector<T>\<close> is a template: everything it does to an element goes through the
  constructors, the assignment operators and the destructor of \<open>T\<close>, and through the two
  type traits its \<open>if constexpr\<close> reads. An element type is therefore a record of those
  operations. Objects have value semantics: a copy or a move yields an object of the same
  value, a move leaves its source in the state \<open>moved_from\<close>, and each operation may throw,
  depending on the value it works on. Destructors do not throw. The record also gives
  \<open>sizeof(T)\<close> and says for which numbers of elements the call of \<open>operator new\<close> that
  \<open>Allocate\<close> makes throws \<open>std::bad_alloc\<close>.

  Sizes, capacities and positions are \<open>size_t\<close>, of 64 bits, in the source and natural
  numbers here. The product \<open>n * sizeof(T)\<close> of \<open>Allocate\<close> is taken modulo \<open>2 ^ 64\<close>,
  as the source computes it. \<open>size_ * 2\<close> wraps around only for a vector of \<open>2 ^ 63\<close>
  live elements, which does not exist, and every subtraction of the source that could
  wrap around (\<open>size_ - num_pos\<close> for a position past the end, \<open>end() - 1\<close> on an empty
  vector, a range whose first iterator lies behind its last) is guarded where it occurs
  and is undefined behaviour there.
\<close>

record 'a elem_type =
  is_nothrow_move_constructible :: bool
  is_copy_constructible :: bool
  value_init :: 'a
  value_init_throws :: bool
  copy_ctor_throws :: "'a \<Rightarrow> bool"
  move_ctor_throws :: "'a \<Rightarrow> bool"
  copy_assign_throws :: "'a \<Rightarrow> bool"
  move_assign_throws :: "'a \<Rightarrow> bool"
  moved_from :: "'a \<Rightarrow> 'a"
  sizeof_T :: nat
  alloc_fails :: "nat \<Rightarrow> bool"

text \<open>
  A call either returns, or lets an exception escape, or has undefined behaviour
  (it reads, assigns to or destroys a slot that holds no object, or leaves the block).
\<close>

datatype ('r, 'e) outcome = Returns 'r | Throws 'e | Undefined

section \<open>Blocks of slots\<close>

text \<open>
  A block of raw memory is a list of slots; \<open>None\<close> is an uninitialized slot,
  \<open>Some x\<close> a live object of value \<open>x\<close>. A pointer into a block is an index.
\<close>

type_synonym 'a block = "'a option list"

text \<open>\<open>new (buf + p) T(...)\<close> for a constructor call that yields value \<open>x\<close>.\<close>

definition placement_new :: "'a block \<Rightarrow> nat \<Rightarrow> 'a \<Rightarrow> 'a block option" where
  "placement_new buf p x = (if p < length buf then Some (buf[p := Some x]) else None)"

text \<open>\<open>Vector::Destroy\<close>: runs the destructor of the object at \<open>buf + p\<close>.\<close>

definition Destroy :: "'a block \<Rightarrow> nat \<Rightarrow> 'a block option" where
  "Destroy buf p =
     (if p < length buf \<and> buf ! p \<noteq> None then Some (buf[p := None]) else None)"

text \<open>\<open>Vector::DestroyN\<close>: \<open>for (i = 0; i != n; ++i) Destroy(buf + i)\<close>.\<close>

fun DestroyN :: "'a block \<Rightarrow> nat \<Rightarrow> nat \<Rightarrow> 'a block option" where
  "DestroyN buf p 0 = Some buf"
| "DestroyN buf p (Suc n) =
     (case Destroy buf p of None \<Rightarrow> None | Some buf' \<Rightarrow> DestroyN buf' (Suc p) n)"

text \<open>
  \<open>std::uninitialized_copy_n(first, count, d_first)\<close>: copy-constructs \<open>count\<close> objects
  into raw slots; when a constructor throws, the objects built so far, from \<open>d_first\<close> up
  to \<open>current\<close>, are destroyed and the exception is rethrown.
\<close>

fun uninit_copy_loop ::
  "'a elem_type \<Rightarrow> 'a block \<Rightarrow> nat \<Rightarrow> nat \<Rightarrow> 'a block \<Rightarrow> nat \<Rightarrow> nat
     \<Rightarrow> ('a block, 'a block) outcome" where
  "uninit_copy_loop E src first 0 dst d_first current = Returns dst"
| "uninit_copy_loop E src first (Suc count) dst d_first current =
     (if first < length src \<and> current < length dst then
        (case src ! first of
           None \<Rightarrow> Undefined
         | Some x \<Rightarrow>
             if copy_ctor_throws E x then
               (case DestroyN dst d_first (current - d_first) of
                  None \<Rightarrow> Undefined
                | Some dst' \<Rightarrow> Throws dst')
             else uninit_copy_loop E src (Suc first) count
                    (dst[current := Some x]) d_first (Suc current))
      else Undefined)"

definition uninitialized_copy_n ::
  "'a elem_type \<Rightarrow> 'a block \<Rightarrow> nat \<Rightarrow> nat \<Rightarrow> 'a block \<Rightarrow> nat
     \<Rightarrow> ('a block, 'a block) outcome" where
  "uninitialized_copy_n E src first count dst d_first =
     uninit_copy_loop E src first count dst d_first d_first"

text \<open>
  \<open>std::uninitialized_move_n\<close>: the same with the move constructor, which changes the
  source object; the result is the pair of the source block and the destination block.
\<close>

fun uninit_move_loop ::
  "'a elem_type \<Rightarrow> 'a block \<Rightarrow> nat \<Rightarrow> nat \<Rightarrow> 'a block \<Rightarrow> nat \<Rightarrow> nat
     \<Rightarrow> ('a block \<times> 'a block, 'a block \<times> 'a block) outcome" where
  "uninit_move_loop E src first 0 dst d_first current = Returns (src, dst)"
| "uninit_move_loop E src first (Suc count) dst d_first current =
     (if first < length src \<and> current < length dst then
        (case src ! first of
           None \<Rightarrow> Undefined
         | Some x \<Rightarrow>
             if move_ctor_throws E x then
               (case DestroyN dst d_first (current - d_first) of
                  None \<Rightarrow> Undefined
                | Some dst' \<Rightarrow> Throws (src, dst'))
             else uninit_move_loop E (src[first := Some (moved_from E x)]) (Suc first) count
                    (dst[current := Some x]) d_first (Suc current))
      else Undefined)"

definition uninitialized_move_n ::
  "'a elem_type \<Rightarrow> 'a block \<Rightarrow> nat \<Rightarrow> nat \<Rightarrow> 'a block \<Rightarrow> nat
     \<Rightarrow> ('a block \<times> 'a block, 'a block \<times> 'a block) outcome" where
  "uninitialized_move_n E src first count dst d_first =
     uninit_move_loop E src first count dst d_first d_first"

text \<open>\<open>std::uninitialized_value_construct_n(d_first, count)\<close>, with the same roll-back.\<close>

fun uninit_value_loop ::
  "'a elem_type \<Rightarrow> nat \<Rightarrow> 'a block \<Rightarrow> nat \<Rightarrow> nat \<Rightarrow> ('a block, 'a block) outcome" where
  "uninit_value_loop E 0 dst d_first current = Returns dst"
| "uninit_value_loop E (Suc count) dst d_first current =
     (if current < length dst then
        (if value_init_throws E then
           (case DestroyN dst d_first (current - d_first) of
              None \<Rightarrow> Undefined
            | Some dst' \<Rightarrow> Throws dst')
         else uninit_value_loop E count (dst[current := Some (value_init E)])
                d_first (Suc current))
      else Undefined)"

definition uninitialized_value_construct_n ::
  "'a elem_type \<Rightarrow> 'a block \<Rightarrow> nat \<Rightarrow> nat \<Rightarrow> ('a block, 'a block) outcome" where
  "uninitialized_value_construct_n E dst d_first count =
     uninit_value_loop E count dst d_first d_first"

text \<open>
  \<open>std::copy(first, first + count, d_first)\<close> between two blocks: copy assignment onto
  live objects, front to back. A throwing assignment leaves the objects assigned so far.
\<close>

fun std_copy ::
  "'a elem_type \<Rightarrow> 'a block \<Rightarrow> nat \<Rightarrow> nat \<Rightarrow> 'a block \<Rightarrow> nat
     \<Rightarrow> ('a block, 'a block) outcome" where
  "std_copy E src first 0 dst d_first = Returns dst"
| "std_copy E src first (Suc count) dst d_first =
     (if first < length src \<and> d_first < length dst then
        (case (src ! first, dst ! d_first) of
           (Some x, Some y) \<Rightarrow>
             if copy_assign_throws E x then Throws dst
             else std_copy E src (Suc first) count (dst[d_first := Some x]) (Suc d_first)
         | _ \<Rightarrow> Undefined)
      else Undefined)"

text \<open>
  \<open>std::move(first, first + count, d_first)\<close> inside one block: move assignment, front
  to back; each source object is left moved-from.
\<close>

fun std_move ::
  "'a elem_type \<Rightarrow> 'a block \<Rightarrow> nat \<Rightarrow> nat \<Rightarrow> nat \<Rightarrow> ('a block, 'a block) outcome" where
  "std_move E buf first 0 d_first = Returns buf"
| "std_move E buf first (Suc count) d_first =
     (if first < length buf \<and> d_first < length buf then
        (case (buf ! first, buf ! d_first) of
           (Some x, Some y) \<Rightarrow>
             if move_assign_throws E x then Throws buf
             else std_move E (buf[d_first := Some x, first := Some (moved_from E x)])
                    (Suc first) count (Suc d_first)
         | _ \<Rightarrow> Undefined)
      else Undefined)"

text \<open>
  \<open>std::move_backward(first, first + count, d_last)\<close> inside one block: move assignment,
  back to front; the last source object goes to \<open>d_last - 1\<close>.
\<close>

fun std_move_backward ::
  "'a elem_type \<Rightarrow> 'a block \<Rightarrow> nat \<Rightarrow> nat \<Rightarrow> nat \<Rightarrow> ('a block, 'a block) outcome" where
  "std_move_backward E buf first 0 d_last = Returns buf"
| "std_move_backward E buf first (Suc count) d_last =
     (if first + count < length buf \<and> 0 < d_last \<and> d_last - 1 < length buf then
        (case (buf ! (first + count), buf ! (d_last - 1)) of
           (Some x, Some y) \<Rightarrow>
             if move_assign_throws E x then Throws buf
             else std_move_backward E
                    (buf[d_last - 1 := Some x, first + count := Some (moved_from E x)])
                    first count (d_last - 1)
         | _ \<Rightarrow> Undefined)
      else Undefined)"

text \<open>
  The block that every reallocating path repeats (lines 199-203, 237-241, 258-262,
  280-284, 323-331, 339-347 of vector.h):
  \<open>if constexpr (is_nothrow_move_constructible_v<T> || !is_copy_constructible_v<T>)
  uninitialized_move_n(...) else uninitialized_copy_n(...)\<close>.
  The copying branch leaves the source block as it is.
\<close>

definition relocate_n ::
  "'a elem_type \<Rightarrow> 'a block \<Rightarrow> nat \<Rightarrow> nat \<Rightarrow> 'a block \<Rightarrow> nat
     \<Rightarrow> ('a block \<times> 'a block, 'a block \<times> 'a block) outcome" where
  "relocate_n E src first count dst d_first =
     (if is_nothrow_move_constructible E \<or> \<not> is_copy_constructible E then
        uninitialized_move_n E src first count dst d_first
      else
        (case uninitialized_copy_n E src first count dst d_first of
           Returns dst' \<Rightarrow> Returns (src, dst')
         | Throws dst' \<Rightarrow> Throws (src, dst')
         | Undefined \<Rightarrow> Undefined))"

section \<open>RawMemory\<close>

text \<open>
  \<open>RawMemory<T>\<close> owns a block and remembers its capacity. \<open>Allocate\<close> gives the null
  block for \<open>n = 0\<close> and otherwise calls \<open>operator new(n * sizeof(T))\<close>, which may throw
  (\<open>None\<close>). The product is a \<open>size_t\<close>: when it wraps around, \<open>operator new\<close> is asked
  for, and returns, a block of fewer than \<open>n\<close> slots, and \<open>capacity_\<close> is \<open>n\<close> all the same.
  The members \<open>buffer_\<close>, \<open>capacity_\<close>, \<open>data_\<close> and \<open>size_\<close> of the source are the fields
  \<open>buffer_m\<close>, \<open>capacity_m\<close>, \<open>data_m\<close> and \<open>size_m\<close> (a name cannot end in an underscore).
\<close>

record 'a RawMemory =
  buffer_m :: "'a block"
  capacity_m :: nat

definition RawMemory_default :: "'a RawMemory" where
  "RawMemory_default = \<lparr>buffer_m = [], capacity_m = 0\<rparr>"

definition Allocate :: "'a elem_type \<Rightarrow> nat \<Rightarrow> 'a block option" where
  "Allocate E n =
     (if n \<noteq> 0 then
        (if alloc_fails E n then None
         else Some (replicate (((n * sizeof_T E) mod 2 ^ 64) div sizeof_T E) None))
      else Some [])"

text \<open>
  The byte size of a block of \<open>n\<close> elements is a \<open>size_t\<close>: \<open>n * sizeof(T)\<close> does not
  wrap around (and \<open>sizeof(T)\<close> is not 0, as for every type).
\<close>

definition fits :: "'a elem_type \<Rightarrow> nat \<Rightarrow> bool" where
  "fits E n \<longleftrightarrow> 0 < sizeof_T E \<and> n * sizeof_T E < 2 ^ 64"

definition RawMemory_new :: "'a elem_type \<Rightarrow> nat \<Rightarrow> 'a RawMemory option" where
  "RawMemory_new E capacity =
     (case Allocate E capacity of
        None \<Rightarrow> None
      | Some b \<Rightarrow> Some \<lparr>buffer_m = b, capacity_m = capacity\<rparr>)"

text \<open>Move construction and move assignment: the source is left null with capacity 0.\<close>

definition RawMemory_move :: "'a RawMemory \<Rightarrow> 'a RawMemory \<times> 'a RawMemory" where
  "RawMemory_move other =
     (\<lparr>buffer_m = buffer_m other, capacity_m = capacity_m other\<rparr>,
      other\<lparr>buffer_m := [], capacity_m := 0\<rparr>)"

definition RawMemory_Swap :: "'a RawMemory \<Rightarrow> 'a RawMemory \<Rightarrow> 'a RawMemory \<times> 'a RawMemory" where
  "RawMemory_Swap this other =
     (this\<lparr>buffer_m := buffer_m other, capacity_m := capacity_m other\<rparr>,
      other\<lparr>buffer_m := buffer_m this, capacity_m := capacity_m this\<rparr>)"

section \<open>Vector\<close>

record 'a Vector =
  data_m :: "'a RawMemory"
  size_m :: nat

definition Size :: "'a Vector \<Rightarrow> nat" where
  "Size v = size_m v"

definition Capacity :: "'a Vector \<Rightarrow> nat" where
  "Capacity v = capacity_m (data_m v)"

definition set_buffer :: "'a Vector \<Rightarrow> 'a block \<Rightarrow> 'a Vector" where
  "set_buffer v b = v\<lparr>data_m := (data_m v)\<lparr>buffer_m := b\<rparr>\<rparr>"

text \<open>Iterators are indices into the block: \<open>begin()\<close> is 0 and \<open>end()\<close> is \<open>size_m\<close>.\<close>

definition vbegin :: "'a Vector \<Rightarrow> nat" where
  "vbegin v = 0"

definition vend :: "'a Vector \<Rightarrow> nat" where
  "vend v = size_m v"

text \<open>\<open>operator[]\<close>: no check in a release build; \<open>None\<close> when no object is there.\<close>

definition index_op :: "'a Vector \<Rightarrow> nat \<Rightarrow> 'a option" where
  "index_op v index =
     (if index < length (buffer_m (data_m v)) then buffer_m (data_m v) ! index else None)"

text \<open>
  A member function returns the new state of the vector (with the iterator or reference
  it returns, where it has one), or throws. A \<open>Throws (v, b)\<close> says that the exception
  leaves the vector in state \<open>v\<close> and that \<open>b\<close> is the block of new storage that the
  unwinding hands back to \<open>operator delete\<close>, as it is at that moment (\<open>[]\<close> when no new
  storage was allocated): an object still live in \<open>b\<close> never has its destructor run.
  A constructor that throws leaves no vector, only the block.
\<close>

type_synonym 'a vresult = "('a Vector, 'a Vector \<times> 'a block) outcome"
type_synonym 'a iresult = "(nat \<times> 'a Vector, 'a Vector \<times> 'a block) outcome"

definition Vector_default :: "'a Vector" where
  "Vector_default = \<lparr>data_m = RawMemory_default, size_m = 0\<rparr>"

definition Vector_sized :: "'a elem_type \<Rightarrow> nat \<Rightarrow> ('a Vector, 'a block) outcome" where
  "Vector_sized E n =
     (case RawMemory_new E n of
        None \<Rightarrow> Throws []
      | Some d \<Rightarrow>
          (case uninitialized_value_construct_n E (buffer_m d) 0 n of
             Undefined \<Rightarrow> Undefined
           | Throws b \<Rightarrow> Throws b
           | Returns b \<Rightarrow> Returns \<lparr>data_m = d\<lparr>buffer_m := b\<rparr>, size_m = n\<rparr>))"

definition Vector_copy :: "'a elem_type \<Rightarrow> 'a Vector \<Rightarrow> ('a Vector, 'a block) outcome" where
  "Vector_copy E other =
     (case RawMemory_new E (size_m other) of
        None \<Rightarrow> Throws []
      | Some d \<Rightarrow>
          (case uninitialized_copy_n E (buffer_m (data_m other)) 0 (size_m other) (buffer_m d) 0 of
             Undefined \<Rightarrow> Undefined
           | Throws b \<Rightarrow> Throws b
           | Returns b \<Rightarrow> Returns \<lparr>data_m = d\<lparr>buffer_m := b\<rparr>, size_m = size_m other\<rparr>))"

text \<open>\<open>Swap\<close> returns the two vectors after the exchange, \<open>*this\<close> first.\<close>

definition Swap :: "'a Vector \<Rightarrow> 'a Vector \<Rightarrow> 'a Vector \<times> 'a Vector" where
  "Swap this other =
     (case RawMemory_Swap (data_m this) (data_m other) of
        (d, d') \<Rightarrow> (this\<lparr>data_m := d, size_m := size_m other\<rparr>,
                    other\<lparr>data_m := d', size_m := size_m this\<rparr>))"

text \<open>\<open>Vector(Vector&& other)\<close>: the members take their defaults, then \<open>Swap(other)\<close>.\<close>

definition Vector_move :: "'a Vector \<Rightarrow> 'a Vector \<times> 'a Vector" where
  "Vector_move other = Swap Vector_default other"

text \<open>\<open>operator=(Vector&& rhs)\<close>: the pair is \<open>*this\<close> and \<open>rhs\<close> after the call.\<close>

definition move_assign :: "'a Vector \<Rightarrow> 'a Vector \<Rightarrow> 'a Vector \<times> 'a Vector" where
  "move_assign this rhs = Swap this rhs"

text \<open>\<open>~Vector()\<close>: destroys the elements; the block is then deallocated. \<open>None\<close> is
  undefined behaviour.\<close>

definition Vector_dtor :: "'a Vector \<Rightarrow> 'a block option" where
  "Vector_dtor v = DestroyN (buffer_m (data_m v)) 0 (size_m v)"

text \<open>
  \<open>operator=(const Vector& rhs)\<close> for \<open>this != &rhs\<close>; \<open>rhs\<close> is not changed. With
  \<open>this == &rhs\<close> the source returns at once (\<open>copy_assign_self\<close>).
\<close>

definition copy_assign :: "'a elem_type \<Rightarrow> 'a Vector \<Rightarrow> 'a Vector \<Rightarrow> 'a vresult" where
  "copy_assign E this rhs =
     (if size_m rhs > capacity_m (data_m this) then
        (case Vector_copy E rhs of
           Undefined \<Rightarrow> Undefined
         | Throws b \<Rightarrow> Throws (this, b)
         | Returns rhs_copy \<Rightarrow>
             (case Swap this rhs_copy of
                (this', rhs_copy') \<Rightarrow>
                  (case Vector_dtor rhs_copy' of
                     None \<Rightarrow> Undefined
                   | Some released \<Rightarrow> Returns this')))
      else if size_m this > size_m rhs then
        (case DestroyN (buffer_m (data_m this)) 0 (size_m this - size_m rhs) of
           None \<Rightarrow> Undefined
         | Some b \<Rightarrow>
             (case std_copy E (buffer_m (data_m rhs)) 0 (size_m rhs) b 0 of
                Undefined \<Rightarrow> Undefined
              | Throws b' \<Rightarrow> Throws ((set_buffer this b')\<lparr>size_m := size_m rhs\<rparr>, [])
              | Returns b' \<Rightarrow> Returns ((set_buffer this b')\<lparr>size_m := size_m rhs\<rparr>)))
      else if size_m this < size_m rhs then
        (case std_copy E (buffer_m (data_m rhs)) 0 (size_m this) (buffer_m (data_m this)) 0 of
           Undefined \<Rightarrow> Undefined
         | Throws b \<Rightarrow> Throws (set_buffer this b, [])
         | Returns b \<Rightarrow>
             (case uninitialized_copy_n E (buffer_m (data_m rhs)) (size_m this)
                     (size_m rhs - size_m this) b (size_m this) of
                Undefined \<Rightarrow> Undefined
              | Throws b' \<Rightarrow> Throws (set_buffer this b', [])
              | Returns b' \<Rightarrow> Returns ((set_buffer this b')\<lparr>size_m := size_m rhs\<rparr>)))
      else
        (case std_copy E (buffer_m (data_m rhs)) 0 (size_m this) (buffer_m (data_m this)) 0 of
           Undefined \<Rightarrow> Undefined
         | Throws b \<Rightarrow> Throws (set_buffer this b, [])
         | Returns b \<Rightarrow> Returns ((set_buffer this b)\<lparr>size_m := size_m rhs\<rparr>)))"

definition copy_assign_self :: "'a Vector \<Rightarrow> 'a vresult" where
  "copy_assign_self this = Returns this"

definition Reserve :: "'a elem_type \<Rightarrow> nat \<Rightarrow> 'a Vector \<Rightarrow> 'a vresult" where
  "Reserve E new_capacity v =
     (if new_capacity \<le> capacity_m (data_m v) then Returns v
      else
        (case RawMemory_new E new_capacity of
           None \<Rightarrow> Throws (v, [])
         | Some new_data \<Rightarrow>
             (case relocate_n E (buffer_m (data_m v)) 0 (size_m v) (buffer_m new_data) 0 of
                Undefined \<Rightarrow> Undefined
              | Throws (src, dst) \<Rightarrow> Throws (set_buffer v src, dst)
              | Returns (src, dst) \<Rightarrow>
                  (case DestroyN src 0 (size_m v) of
                     None \<Rightarrow> Undefined
                   | Some old \<Rightarrow>
                       (case RawMemory_Swap ((data_m v)\<lparr>buffer_m := old\<rparr>)
                               (new_data\<lparr>buffer_m := dst\<rparr>) of
                          (d, released) \<Rightarrow> Returns (v\<lparr>data_m := d\<rparr>))))))"

definition PopBack :: "'a Vector \<Rightarrow> 'a vresult" where
  "PopBack v =
     (if size_m v > 0 then
        (case Destroy (buffer_m (data_m v)) (size_m v - 1) of
           None \<Rightarrow> Undefined
         | Some b \<Rightarrow> Returns ((set_buffer v b)\<lparr>size_m := size_m v - 1\<rparr>))
      else Returns v)"

text \<open>The loop of \<open>Resize\<close>: \<open>for (i = 0; i < count_to_delete; i++) PopBack()\<close>.\<close>

fun PopBack_times :: "nat \<Rightarrow> 'a Vector \<Rightarrow> 'a vresult" where
  "PopBack_times 0 v = Returns v"
| "PopBack_times (Suc n) v =
     (case PopBack v of
        Returns v' \<Rightarrow> PopBack_times n v'
      | Throws e \<Rightarrow> Throws e
      | Undefined \<Rightarrow> Undefined)"

definition Resize :: "'a elem_type \<Rightarrow> nat \<Rightarrow> 'a Vector \<Rightarrow> 'a vresult" where
  "Resize E new_size v =
     (if new_size = size_m v then Returns v
      else if new_size < size_m v then PopBack_times (size_m v - new_size) v
      else
        (case Reserve E new_size v of
           Undefined \<Rightarrow> Undefined
         | Throws e \<Rightarrow> Throws e
         | Returns v1 \<Rightarrow>
             (case uninitialized_value_construct_n E (buffer_m (data_m v1)) (size_m v)
                     (new_size - size_m v) of
                Undefined \<Rightarrow> Undefined
              | Throws b \<Rightarrow> Throws (set_buffer v1 b, [])
              | Returns b \<Rightarrow> Returns ((set_buffer v1 b)\<lparr>size_m := new_size\<rparr>))))"

text \<open>
  \<open>PushBack(const T& value)\<close>. With no spare slot the new block has
  \<open>size_ == 0 ? 1 : size_ * 2\<close> slots; the new element is built first, at index
  \<open>size_\<close> of the new block, then the old elements are transferred. Nothing catches an
  exception of the transfer here, so the new block is released as \<open>relocate_n\<close> left it.
\<close>

definition PushBack :: "'a elem_type \<Rightarrow> 'a \<Rightarrow> 'a Vector \<Rightarrow> 'a vresult" where
  "PushBack E val v =
     (if capacity_m (data_m v) > size_m v then
        (if copy_ctor_throws E val then Throws (v, [])
         else
           (case placement_new (buffer_m (data_m v)) (size_m v) val of
              None \<Rightarrow> Undefined
            | Some b \<Rightarrow> Returns ((set_buffer v b)\<lparr>size_m := size_m v + 1\<rparr>)))
      else
        (let new_size = (if size_m v = 0 then 1 else size_m v * 2) in
         case RawMemory_new E new_size of
           None \<Rightarrow> Throws (v, [])
         | Some new_data \<Rightarrow>
             if copy_ctor_throws E val then Throws (v, buffer_m new_data)
             else
               (case placement_new (buffer_m new_data) (size_m v) val of
                  None \<Rightarrow> Undefined
                | Some nb \<Rightarrow>
                    (case relocate_n E (buffer_m (data_m v)) 0 (size_m v) nb 0 of
                       Undefined \<Rightarrow> Undefined
                     | Throws (src, dst) \<Rightarrow> Throws (set_buffer v src, dst)
                     | Returns (src, dst) \<Rightarrow>
                         (case DestroyN src 0 (size_m v) of
                            None \<Rightarrow> Undefined
                          | Some old \<Rightarrow>
                              (case RawMemory_Swap ((data_m v)\<lparr>buffer_m := old\<rparr>)
                                      (new_data\<lparr>buffer_m := dst\<rparr>) of
                                 (d, released) \<Rightarrow>
                                   Returns (v\<lparr>data_m := d, size_m := size_m v + 1\<rparr>)))))))"

text \<open>\<open>PushBack(T&& value)\<close>: the same with the move constructor; the argument
  belongs to the caller and its moved-from state is not part of the vector.\<close>

definition PushBack_move :: "'a elem_type \<Rightarrow> 'a \<Rightarrow> 'a Vector \<Rightarrow> 'a vresult" where
  "PushBack_move E val v =
     (if capacity_m (data_m v) > size_m v then
        (if move_ctor_throws E val then Throws (v, [])
         else
           (case placement_new (buffer_m (data_m v)) (size_m v) val of
              None \<Rightarrow> Undefined
            | Some b \<Rightarrow> Returns ((set_buffer v b)\<lparr>size_m := size_m v + 1\<rparr>)))
      else
        (let new_size = (if size_m v = 0 then 1 else size_m v * 2) in
         case RawMemory_new E new_size of
           None \<Rightarrow> Throws (v, [])
         | Some new_data \<Rightarrow>
             if move_ctor_throws E val then Throws (v, buffer_m new_data)
             else
               (case placement_new (buffer_m new_data) (size_m v) val of
                  None \<Rightarrow> Undefined
                | Some nb \<Rightarrow>
                    (case relocate_n E (buffer_m (data_m v)) 0 (size_m v) nb 0 of
                       Undefined \<Rightarrow> Undefined
                     | Throws (src, dst) \<Rightarrow> Throws (set_buffer v src, dst)
                     | Returns (src, dst) \<Rightarrow>
                         (case DestroyN src 0 (size_m v) of
                            None \<Rightarrow> Undefined
                          | Some old \<Rightarrow>
                              (case RawMemory_Swap ((data_m v)\<lparr>buffer_m := old\<rparr>)
                                      (new_data\<lparr>buffer_m := dst\<rparr>) of
                                 (d, released) \<Rightarrow>
                                   Returns (v\<lparr>data_m := d, size_m := size_m v + 1\<rparr>)))))))"

text \<open>
  \<open>EmplaceBack(args...)\<close>. The constructor call \<open>T(std::forward<Args>(args)...)\<close> is the
  argument \<open>ctor\<close>: \<open>Some x\<close> when it builds an object of value \<open>x\<close>, \<open>None\<close> when it
  throws. The reference returned is the index \<open>size_ - 1\<close> of the new element.
\<close>

definition EmplaceBack :: "'a elem_type \<Rightarrow> 'a option \<Rightarrow> 'a Vector \<Rightarrow> 'a iresult" where
  "EmplaceBack E ctor v =
     (if capacity_m (data_m v) > size_m v then
        (case ctor of
           None \<Rightarrow> Throws (v, [])
         | Some x \<Rightarrow>
             (case placement_new (buffer_m (data_m v)) (size_m v) x of
                None \<Rightarrow> Undefined
              | Some b \<Rightarrow> Returns (size_m v + 1 - 1, (set_buffer v b)\<lparr>size_m := size_m v + 1\<rparr>)))
      else
        (let new_size = (if size_m v = 0 then 1 else size_m v * 2) in
         case RawMemory_new E new_size of
           None \<Rightarrow> Throws (v, [])
         | Some new_data \<Rightarrow>
             (case ctor of
                None \<Rightarrow> Throws (v, buffer_m new_data)
              | Some x \<Rightarrow>
                  (case placement_new (buffer_m new_data) (size_m v) x of
                     None \<Rightarrow> Undefined
                   | Some nb \<Rightarrow>
                       (case relocate_n E (buffer_m (data_m v)) 0 (size_m v) nb 0 of
                          Undefined \<Rightarrow> Undefined
                        | Throws (src, dst) \<Rightarrow> Throws (set_buffer v src, dst)
                        | Returns (src, dst) \<Rightarrow>
                            (case DestroyN src 0 (size_m v) of
                               None \<Rightarrow> Undefined
                             | Some old \<Rightarrow>
                                 (case RawMemory_Swap ((data_m v)\<lparr>buffer_m := old\<rparr>)
                                         (new_data\<lparr>buffer_m := dst\<rparr>) of
                                    (d, released) \<Rightarrow>
                                      Returns (size_m v + 1 - 1,
                                               v\<lparr>data_m := d, size_m := size_m v + 1\<rparr>))))))))"

text \<open>
  \<open>Emplace(pos, args...)\<close>, with \<open>num_pos = pos - begin()\<close> for the position.

  With a spare slot: at the end the element is built in place; elsewhere a temporary
  \<open>value\<close> is built, the last element is move-constructed into the slot at \<open>end()\<close>,
  \<open>move_backward\<close> shifts \<open>[num_pos, size_ - 1)\<close> up by one and the temporary is
  move-assigned to the slot at \<open>num_pos\<close>.

  With no spare slot: the element is built at \<open>num_pos\<close> of the new block; the prefix
  \<open>[0, num_pos)\<close> is transferred, and on an exception the handler destroys the slot
  \<open>num_pos\<close>; the suffix is transferred to \<open>num_pos + 1\<close>, and on an exception the
  handler calls \<open>DestroyN(new_data.GetAddress() + num_pos, size_ - num_pos + 1)\<close>.
  For \<open>num_pos > size_\<close> the count \<open>size_ - num_pos\<close> wraps around and the transfer
  leaves the block.
\<close>

definition Emplace :: "'a elem_type \<Rightarrow> nat \<Rightarrow> 'a option \<Rightarrow> 'a Vector \<Rightarrow> 'a iresult" where
  "Emplace E num_pos ctor v =
     (if capacity_m (data_m v) > size_m v then
        (if num_pos = vend v then
           (case ctor of
              None \<Rightarrow> Throws (v, [])
            | Some x \<Rightarrow>
                (case placement_new (buffer_m (data_m v)) (vend v) x of
                   None \<Rightarrow> Undefined
                 | Some b \<Rightarrow> Returns (num_pos, (set_buffer v b)\<lparr>size_m := size_m v + 1\<rparr>)))
         else
           (case ctor of
              None \<Rightarrow> Throws (v, [])
            | Some val \<Rightarrow>
                if vend v = 0 \<or> length (buffer_m (data_m v)) \<le> vend v - 1 then Undefined
                else
                  (case buffer_m (data_m v) ! (vend v - 1) of
                     None \<Rightarrow> Undefined
                   | Some last_elem \<Rightarrow>
                       if move_ctor_throws E last_elem then Throws (v, [])
                       else
                         (case placement_new
                                 ((buffer_m (data_m v))[vend v - 1 := Some (moved_from E last_elem)])
                                 (vend v) last_elem of
                            None \<Rightarrow> Undefined
                          | Some b1 \<Rightarrow>
                              if vend v - 1 < num_pos then Undefined
                              else
                                (case std_move_backward E b1 num_pos (vend v - 1 - num_pos)
                                        (vend v) of
                                   Undefined \<Rightarrow> Undefined
                                 | Throws b2 \<Rightarrow> Throws (set_buffer v b2, [])
                                 | Returns b2 \<Rightarrow>
                                     if length b2 \<le> num_pos \<or> b2 ! num_pos = None then Undefined
                                     else if move_assign_throws E val
                                       then Throws (set_buffer v b2, [])
                                     else Returns (num_pos,
                                            (set_buffer v (b2[num_pos := Some val]))
                                              \<lparr>size_m := size_m v + 1\<rparr>))))))
      else
        (let new_size = (if size_m v = 0 then 1 else size_m v * 2) in
         case RawMemory_new E new_size of
           None \<Rightarrow> Throws (v, [])
         | Some new_data \<Rightarrow>
             (case ctor of
                None \<Rightarrow> Throws (v, buffer_m new_data)
              | Some x \<Rightarrow>
                  (case placement_new (buffer_m new_data) num_pos x of
                     None \<Rightarrow> Undefined
                   | Some nb \<Rightarrow>
                       (case relocate_n E (buffer_m (data_m v)) 0 num_pos nb 0 of
                          Undefined \<Rightarrow> Undefined
                        | Throws (src, dst) \<Rightarrow>
                            (case Destroy dst num_pos of
                               None \<Rightarrow> Undefined
                             | Some dst' \<Rightarrow> Throws (set_buffer v src, dst'))
                        | Returns (src, dst) \<Rightarrow>
                            if size_m v < num_pos then Undefined
                            else
                              (case relocate_n E src num_pos (size_m v - num_pos)
                                      dst (num_pos + 1) of
                                 Undefined \<Rightarrow> Undefined
                               | Throws (src', dst') \<Rightarrow>
                                   (case DestroyN dst' num_pos (size_m v - num_pos + 1) of
                                      None \<Rightarrow> Undefined
                                    | Some dst'' \<Rightarrow> Throws (set_buffer v src', dst''))
                               | Returns (src', dst') \<Rightarrow>
                                   (case DestroyN src' 0 (size_m v) of
                                      None \<Rightarrow> Undefined
                                    | Some old \<Rightarrow>
                                        (case RawMemory_Swap ((data_m v)\<lparr>buffer_m := old\<rparr>)
                                                (new_data\<lparr>buffer_m := dst'\<rparr>) of
                                           (d, released) \<Rightarrow>
                                             Returns (num_pos,
                                               v\<lparr>data_m := d, size_m := size_m v + 1\<rparr>)))))))))"

text \<open>\<open>Insert(pos, const T&)\<close> and \<open>Insert(pos, T&&)\<close> call \<open>Emplace\<close>, whose constructor
  call is then the copy or the move constructor.\<close>

definition Insert :: "'a elem_type \<Rightarrow> nat \<Rightarrow> 'a \<Rightarrow> 'a Vector \<Rightarrow> 'a iresult" where
  "Insert E pos val v = Emplace E pos (if copy_ctor_throws E val then None else Some val) v"

definition Insert_move :: "'a elem_type \<Rightarrow> nat \<Rightarrow> 'a \<Rightarrow> 'a Vector \<Rightarrow> 'a iresult" where
  "Insert_move E pos val v = Emplace E pos (if move_ctor_throws E val then None else Some val) v"

text \<open>
  \<open>Erase(pos)\<close>: \<open>std::move(begin() + num_pos + 1, end(), begin() + num_pos)\<close>, then the
  last slot is destroyed. A range whose first iterator lies behind \<open>end()\<close> is undefined.
  The iterator returned is \<open>end()\<close> when \<open>size_ + 1 == 1\<close> and \<open>begin() + num_pos\<close>
  otherwise.
\<close>

definition Erase :: "'a elem_type \<Rightarrow> nat \<Rightarrow> 'a Vector \<Rightarrow> 'a iresult" where
  "Erase E num_pos v =
     (if size_m v > 0 then
        (if vend v < num_pos + 1 then Undefined
         else
           (case std_move E (buffer_m (data_m v)) (num_pos + 1) (vend v - (num_pos + 1)) num_pos of
              Undefined \<Rightarrow> Undefined
            | Throws b \<Rightarrow> Throws (set_buffer v b, [])
            | Returns b \<Rightarrow>
                (case Destroy b (size_m v - 1) of
                   None \<Rightarrow> Undefined
                 | Some b' \<Rightarrow>
                     (let v' = (set_buffer v b')\<lparr>size_m := size_m v - 1\<rparr> in
                      Returns (if size_m v' + 1 = 1 then vend v' else vbegin v' + num_pos, v')))))
      else Returns (if size_m v + 1 = 1 then vend v else vbegin v + num_pos, v))"

section \<open>What a vector holds\<close>

text \<open>
  The sequence a vector holds is the values of the slots \<open>[0, size_)\<close>. A vector is
  well formed when its block has \<open>capacity_\<close> slots, \<open>size_ \<le> capacity_\<close>, the slots
  \<open>[0, size_)\<close> hold objects and the slots \<open>[size_, capacity_)\<close> are uninitialized.
  \<open>vec_of xs c\<close> is the well-formed vector that holds \<open>xs\<close> with capacity \<open>c\<close>.
\<close>

definition elems :: "'a Vector \<Rightarrow> 'a list" where
  "elems v = map the (take (size_m v) (buffer_m (data_m v)))"

definition wf :: "'a Vector \<Rightarrow> bool" where
  "wf v \<longleftrightarrow>
     length (buffer_m (data_m v)) = capacity_m (data_m v) \<and>
     size_m v \<le> capacity_m (data_m v) \<and>
     buffer_m (data_m v) =
       map Some (elems v) @ replicate (capacity_m (data_m v) - size_m v) None"

definition vec_of :: "'a list \<Rightarrow> nat \<Rightarrow> 'a Vector" where
  "vec_of xs c =
     \<lparr>data_m = \<lparr>buffer_m = map Some xs @ replicate (c - length xs) None, capacity_m = c\<rparr>,
      size_m = length xs\<rparr>"

subsection \<open>Some element types\<close>

text \<open>
  \<open>plain\<close> behaves like a 64-bit integer: \<open>sizeof\<close> is 8 and nothing throws. \<open>copy_throws_at k\<close> is copyable, its
  move constructor is not declared \<open>noexcept\<close>, and copying the value \<open>k\<close> throws.
  \<open>move_only_at k\<close> cannot be copied, its move constructor is not declared \<open>noexcept\<close>
  and throws on the value \<open>k\<close>, and a moved-from object has value 0.
  \<open>assign_throws_at k\<close> is \<open>plain\<close> except that assigning the value \<open>k\<close> throws.
\<close>

definition plain :: "nat elem_type" where
  "plain = \<lparr>is_nothrow_move_constructible = True, is_copy_constructible = True,
     value_init = 0, value_init_throws = False,
     copy_ctor_throws = (\<lambda>x. False), move_ctor_throws = (\<lambda>x. False),
     copy_assign_throws = (\<lambda>x. False), move_assign_throws = (\<lambda>x. False),
     moved_from = (\<lambda>x. x), sizeof_T = 8, alloc_fails = (\<lambda>n. False)\<rparr>"

definition copy_throws_at :: "nat \<Rightarrow> nat elem_type" where
  "copy_throws_at k = plain\<lparr>is_nothrow_move_constructible := False,
     copy_ctor_throws := (\<lambda>x. x = k)\<rparr>"

definition move_only_at :: "nat \<Rightarrow> nat elem_type" where
  "move_only_at k = plain\<lparr>is_nothrow_move_constructible := False,
     is_copy_constructible := False, copy_ctor_throws := (\<lambda>x. True),
     move_ctor_throws := (\<lambda>x. x = k), moved_from := (\<lambda>x. 0)\<rparr>"

definition assign_throws_at :: "nat \<Rightarrow> nat elem_type" where
  "assign_throws_at k = plain\<lparr>copy_assign_throws := (\<lambda>x. x = k),
     move_assign_throws := (\<lambda>x. x = k)\<rparr>"

section \<open>Calls and reachable states\<close>

text \<open>
  The invariant of the spec, \<open>size_ \<le> capacity_\<close>; the calls of the public interface
  that change a vector; the vectors a call leaves behind, whether it returns or throws
  (for a move assignment and a \<open>Swap\<close>, both vectors); and the vectors that can be
  reached from the constructors by such calls.
\<close>

definition size_le_capacity :: "'a Vector \<Rightarrow> bool" where
  "size_le_capacity v \<longleftrightarrow> size_m v \<le> capacity_m (data_m v)"

datatype 'a call =
    Call_Reserve nat
  | Call_Resize nat
  | Call_PushBack 'a
  | Call_PushBack_move 'a
  | Call_EmplaceBack "'a option"
  | Call_Insert nat 'a
  | Call_Insert_move nat 'a
  | Call_Emplace nat "'a option"
  | Call_Erase nat
  | Call_PopBack
  | Call_copy_assign "'a Vector"
  | Call_copy_assign_self
  | Call_move_assign "'a Vector"
  | Call_Swap "'a Vector"

fun after_call :: "'a vresult \<Rightarrow> 'a Vector list" where
  "after_call (Returns v) = [v]"
| "after_call (Throws (v, b)) = [v]"
| "after_call Undefined = []"

fun after_icall :: "'a iresult \<Rightarrow> 'a Vector list" where
  "after_icall (Returns (i, v)) = [v]"
| "after_icall (Throws (v, b)) = [v]"
| "after_icall Undefined = []"

fun states_after :: "'a elem_type \<Rightarrow> 'a call \<Rightarrow> 'a Vector \<Rightarrow> 'a Vector list" where
  "states_after E (Call_Reserve n) v = after_call (Reserve E n v)"
| "states_after E (Call_Resize n) v = after_call (Resize E n v)"
| "states_after E (Call_PushBack x) v = after_call (PushBack E x v)"
| "states_after E (Call_PushBack_move x) v = after_call (PushBack_move E x v)"
| "states_after E (Call_EmplaceBack ctor) v = after_icall (EmplaceBack E ctor v)"
| "states_after E (Call_Insert pos x) v = after_icall (Insert E pos x v)"
| "states_after E (Call_Insert_move pos x) v = after_icall (Insert_move E pos x v)"
| "states_after E (Call_Emplace pos ctor) v = after_icall (Emplace E pos ctor v)"
| "states_after E (Call_Erase pos) v = after_icall (Erase E pos v)"
| "states_after E Call_PopBack v = after_call (PopBack v)"
| "states_after E (Call_copy_assign rhs) v = after_call (copy_assign E v rhs)"
| "states_after E Call_copy_assign_self v = after_call (copy_assign_self v)"
| "states_after E (Call_move_assign rhs) v = [fst (move_assign v rhs), snd (move_assign v rhs)]"
| "states_after E (Call_Swap other) v = [fst (Swap v other), snd (Swap v other)]"

fun call_arguments :: "'a call \<Rightarrow> 'a Vector list" where
  "call_arguments (Call_copy_assign rhs) = [rhs]"
| "call_arguments (Call_move_assign rhs) = [rhs]"
| "call_arguments (Call_Swap other) = [other]"
| "call_arguments c = []"

inductive reachable :: "'a elem_type \<Rightarrow> 'a Vector \<Rightarrow> bool" for E :: "'a elem_type" where
  by_default: "reachable E Vector_default"
| by_size: "Vector_sized E n = Returns v \<Longrightarrow> reachable E v"
| by_copy: "reachable E other \<Longrightarrow> Vector_copy E other = Returns v \<Longrightarrow> reachable E v"
| by_move: "reachable E other \<Longrightarrow> v = fst (Vector_move other) \<or> v = snd (Vector_move other)
     \<Longrightarrow> reachable E v"
| by_call: "reachable E v \<Longrightarrow> (\<forall>a \<in> set (call_arguments c). reachable E a)
     \<Longrightarrow> v' \<in> set (states_after E c v) \<Longrightarrow> reachable E v'"

section \<open>Notions used in the statements and proofs\<close>

text \<open>
  The source objects after an \<open>uninitialized_move_n\<close> over the values \<open>xs\<close>: the
  objects in front of the first one whose move constructor throws are moved-from, the
  others are as they were.
\<close>

definition moved_prefix :: "'a elem_type \<Rightarrow> 'a list \<Rightarrow> 'a list" where
  "moved_prefix E xs =
     map (moved_from E) (takeWhile (\<lambda>x. \<not> move_ctor_throws E x) xs)
       @ dropWhile (\<lambda>x. \<not> move_ctor_throws E x) xs"

text \<open>
  The condition of the \<open>if constexpr\<close>, whether a transfer of the values \<open>xs\<close> throws,
  and the source objects it leaves behind.
\<close>

definition uses_move :: "'a elem_type \<Rightarrow> bool" where
  "uses_move E \<longleftrightarrow> is_nothrow_move_constructible E \<or> \<not> is_copy_constructible E"

definition relocation_throws :: "'a elem_type \<Rightarrow> 'a list \<Rightarrow> bool" where
  "relocation_throws E xs =
     (if uses_move E then list_ex (move_ctor_throws E) xs else list_ex (copy_ctor_throws E) xs)"

definition relocation_source :: "'a elem_type \<Rightarrow> 'a list \<Rightarrow> 'a list" where
  "relocation_source E xs = (if uses_move E then moved_prefix E xs else xs)"

text \<open>The capacity of a reallocating push or insert: \<open>size_ == 0 ? 1 : size_ * 2\<close>.\<close>

definition grown :: "nat \<Rightarrow> nat" where
  "grown n = (if n = 0 then 1 else n * 2)"

text \<open>The outcome of a call without the iterator it returns.\<close>

fun drop_iterator :: "'a iresult \<Rightarrow> 'a vresult" where
  "drop_iterator (Returns (i, v)) = Returns v"
| "drop_iterator (Throws e) = Throws e"
| "drop_iterator Undefined = Undefined"

text \<open>
  None of the copy constructor, the move constructor and the move assignment of the
  element type throws on any of the values \<open>xs\<close>.
\<close>

definition never_throws_on :: "'a elem_type \<Rightarrow> 'a list \<Rightarrow> bool" where
  "never_throws_on E xs =
     list_all (\<lambda>y. \<not> copy_ctor_throws E y \<and> \<not> move_ctor_throws E y
                   \<and> \<not> move_assign_throws E y) xs"

section \<open>Blocks: what the loops compute\<close>

lemma Destroy_at:
  "Destroy (pre @ Some x # post) (length pre) = Some (pre @ None # post)"
  by (simp add: Destroy_def)

lemma DestroyN_objects:
  "DestroyN (pre @ map Some xs @ post) (length pre) (length xs)
     = Some (pre @ replicate (length xs) None @ post)"
proof (induction xs arbitrary: pre)
  case Nil
  show ?case by simp
next
  case (Cons x xs)
  have "DestroyN ((pre @ [None]) @ map Some xs @ post) (length (pre @ [None])) (length xs)
          = Some ((pre @ [None]) @ replicate (length xs) None @ post)"
    by (rule Cons.IH)
  then show ?case by (simp add: Destroy_at)
qed

lemma DestroyN_front:
  "DestroyN (map Some xs @ post) 0 (length xs) = Some (replicate (length xs) None @ post)"
  using DestroyN_objects [of "[]" xs post] by simp

lemma uninit_copy_loop_spec:
  "uninit_copy_loop E (spre @ map Some xs @ spost) (length spre) (length xs)
      (dpre @ map Some ds @ replicate (length xs) None @ dpost)
      (length dpre) (length dpre + length ds)
   = (if list_ex (copy_ctor_throws E) xs
      then Throws (dpre @ replicate (length ds + length xs) None @ dpost)
      else Returns (dpre @ map Some (ds @ xs) @ dpost))"
proof (induction xs arbitrary: spre ds)
  case Nil
  show ?case by simp
next
  case (Cons x xs)
  let ?dst = "dpre @ map Some ds @ replicate (length (x # xs)) None @ dpost"
  have upd: "?dst[length dpre + length ds := Some x]
               = dpre @ map Some (ds @ [x]) @ replicate (length xs) None @ dpost"
    using list_update_length [of "dpre @ map Some ds" None "replicate (length xs) None @ dpost" "Some x"]
    by simp
  have rb: "DestroyN ?dst (length dpre) (length ds)
              = Some (dpre @ replicate (length ds + length (x # xs)) None @ dpost)"
    using DestroyN_objects [of dpre ds "replicate (length (x # xs)) None @ dpost"]
    by (simp add: replicate_add replicate_app_Cons_same)
  have ih: "uninit_copy_loop E ((spre @ [Some x]) @ map Some xs @ spost) (length (spre @ [Some x]))
              (length xs) (dpre @ map Some (ds @ [x]) @ replicate (length xs) None @ dpost)
              (length dpre) (length dpre + length (ds @ [x]))
            = (if list_ex (copy_ctor_throws E) xs
               then Throws (dpre @ replicate (length (ds @ [x]) + length xs) None @ dpost)
               else Returns (dpre @ map Some ((ds @ [x]) @ xs) @ dpost))"
    by (rule Cons.IH)
  show ?case
  proof (cases "copy_ctor_throws E x")
    case True
    then show ?thesis using rb by (simp add: nth_append)
  next
    case False
    then show ?thesis using ih upd by (simp add: nth_append)
  qed
qed

lemma uninitialized_copy_n_spec:
  "n = length xs \<Longrightarrow> first = length spre \<Longrightarrow> d_first = length dpre \<Longrightarrow>
   uninitialized_copy_n E (spre @ map Some xs @ spost) first n
      (dpre @ replicate n None @ dpost) d_first
   = (if list_ex (copy_ctor_throws E) xs
      then Throws (dpre @ replicate n None @ dpost)
      else Returns (dpre @ map Some xs @ dpost))"
  using uninit_copy_loop_spec [of E spre xs spost dpre "[]" dpost]
  by (simp add: uninitialized_copy_n_def)

lemma moved_prefix_Nil [simp]: "moved_prefix E [] = []"
  by (simp add: moved_prefix_def)

lemma moved_prefix_Cons [simp]:
  "moved_prefix E (x # xs) =
     (if move_ctor_throws E x then x # xs else moved_from E x # moved_prefix E xs)"
  by (simp add: moved_prefix_def)

lemma length_moved_prefix [simp]: "length (moved_prefix E xs) = length xs"
  by (induction xs) auto

lemma uninit_move_loop_spec:
  "uninit_move_loop E (spre @ map Some xs @ spost) (length spre) (length xs)
      (dpre @ map Some ds @ replicate (length xs) None @ dpost)
      (length dpre) (length dpre + length ds)
   = (if list_ex (move_ctor_throws E) xs
      then Throws (spre @ map Some (moved_prefix E xs) @ spost,
                   dpre @ replicate (length ds + length xs) None @ dpost)
      else Returns (spre @ map Some (moved_prefix E xs) @ spost,
                    dpre @ map Some (ds @ xs) @ dpost))"
proof (induction xs arbitrary: spre ds)
  case Nil
  show ?case by simp
next
  case (Cons x xs)
  let ?dst = "dpre @ map Some ds @ replicate (length (x # xs)) None @ dpost"
  have upd: "?dst[length dpre + length ds := Some x]
               = dpre @ map Some (ds @ [x]) @ replicate (length xs) None @ dpost"
    using list_update_length [of "dpre @ map Some ds" None "replicate (length xs) None @ dpost" "Some x"]
    by simp
  have rb: "DestroyN ?dst (length dpre) (length ds)
              = Some (dpre @ replicate (length ds + length (x # xs)) None @ dpost)"
    using DestroyN_objects [of dpre ds "replicate (length (x # xs)) None @ dpost"]
    by (simp add: replicate_add replicate_app_Cons_same)
  have ih: "uninit_move_loop E ((spre @ [Some (moved_from E x)]) @ map Some xs @ spost)
              (length (spre @ [Some (moved_from E x)]))
              (length xs) (dpre @ map Some (ds @ [x]) @ replicate (length xs) None @ dpost)
              (length dpre) (length dpre + length (ds @ [x]))
            = (if list_ex (move_ctor_throws E) xs
               then Throws ((spre @ [Some (moved_from E x)]) @ map Some (moved_prefix E xs) @ spost,
                       dpre @ replicate (length (ds @ [x]) + length xs) None @ dpost)
               else Returns ((spre @ [Some (moved_from E x)]) @ map Some (moved_prefix E xs) @ spost,
                       dpre @ map Some ((ds @ [x]) @ xs) @ dpost))"
    by (rule Cons.IH)
  show ?case
  proof (cases "move_ctor_throws E x")
    case True
    then show ?thesis using rb by (simp add: nth_append)
  next
    case False
    then show ?thesis using ih upd by (simp add: nth_append)
  qed
qed

lemma uninitialized_move_n_spec:
  "n = length xs \<Longrightarrow> first = length spre \<Longrightarrow> d_first = length dpre \<Longrightarrow>
   uninitialized_move_n E (spre @ map Some xs @ spost) first n
      (dpre @ replicate n None @ dpost) d_first
   = (if list_ex (move_ctor_throws E) xs
      then Throws (spre @ map Some (moved_prefix E xs) @ spost, dpre @ replicate n None @ dpost)
      else Returns (spre @ map Some (moved_prefix E xs) @ spost, dpre @ map Some xs @ dpost))"
  using uninit_move_loop_spec [of E spre xs spost dpre "[]" dpost]
  by (simp add: uninitialized_move_n_def)

lemma uninit_value_loop_spec:
  "uninit_value_loop E n (dpre @ map Some ds @ replicate n None @ dpost)
      (length dpre) (length dpre + length ds)
   = (if value_init_throws E \<and> 0 < n
      then Throws (dpre @ replicate (length ds + n) None @ dpost)
      else Returns (dpre @ map Some (ds @ replicate n (value_init E)) @ dpost))"
proof (induction n arbitrary: ds)
  case 0
  show ?case by simp
next
  case (Suc n)
  let ?dst = "dpre @ map Some ds @ replicate (Suc n) None @ dpost"
  have upd: "?dst[length dpre + length ds := Some (value_init E)]
               = dpre @ map Some (ds @ [value_init E]) @ replicate n None @ dpost"
    using list_update_length [of "dpre @ map Some ds" None "replicate n None @ dpost"
        "Some (value_init E)"]
    by simp
  have rb: "DestroyN ?dst (length dpre) (length ds)
              = Some (dpre @ replicate (length ds + Suc n) None @ dpost)"
    using DestroyN_objects [of dpre ds "replicate (Suc n) None @ dpost"]
    by (simp add: replicate_add replicate_app_Cons_same)
  have ih: "uninit_value_loop E n (dpre @ map Some (ds @ [value_init E]) @ replicate n None @ dpost)
              (length dpre) (length dpre + length (ds @ [value_init E]))
            = (if value_init_throws E \<and> 0 < n
               then Throws (dpre @ replicate (length (ds @ [value_init E]) + n) None @ dpost)
               else Returns (dpre @ map Some ((ds @ [value_init E]) @ replicate n (value_init E)) @ dpost))"
    by (rule Suc.IH)
  show ?case
  proof (cases "value_init_throws E")
    case True
    then show ?thesis using rb by simp
  next
    case False
    then show ?thesis using ih upd by (simp add: replicate_app_Cons_same)
  qed
qed

lemma uninitialized_value_construct_n_spec:
  "d_first = length dpre \<Longrightarrow>
   uninitialized_value_construct_n E (dpre @ replicate n None @ dpost) d_first n
   = (if value_init_throws E \<and> 0 < n
      then Throws (dpre @ replicate n None @ dpost)
      else Returns (dpre @ map Some (replicate n (value_init E)) @ dpost))"
  using uninit_value_loop_spec [of E n dpre "[]" dpost]
  by (simp add: uninitialized_value_construct_n_def)

lemma std_move_spec:
  "\<not> list_ex (move_assign_throws E) xs \<Longrightarrow>
   \<exists>y. std_move E (pre @ Some d # map Some xs @ post) (Suc (length pre)) (length xs) (length pre)
        = Returns (pre @ map Some xs @ Some y # post)"
proof (induction xs arbitrary: pre d)
  case Nil
  show ?case by simp
next
  case (Cons x xs)
  have nt: "\<not> move_assign_throws E x" and rest: "\<not> list_ex (move_assign_throws E) xs"
    using Cons.prems by simp_all
  obtain y where y:
    "std_move E ((pre @ [Some x]) @ Some (moved_from E x) # map Some xs @ post)
       (Suc (length (pre @ [Some x]))) (length xs) (length (pre @ [Some x]))
     = Returns ((pre @ [Some x]) @ map Some xs @ Some y # post)"
    using Cons.IH [OF rest] by blast
  have upd: "(pre @ Some d # Some x # map Some xs @ post)
               [length pre := Some x, Suc (length pre) := Some (moved_from E x)]
             = pre @ Some x # Some (moved_from E x) # map Some xs @ post"
    using list_update_length [of "pre @ [Some x]" "Some x" "map Some xs @ post" "Some (moved_from E x)"]
    by (simp add: list_update_append)
  show ?case using nt y upd by (simp add: nth_append)
qed

lemma std_move_backward_spec:
  "\<not> list_ex (move_assign_throws E) xs \<Longrightarrow>
   \<exists>y. std_move_backward E (pre @ map Some xs @ Some d # post) (length pre) (length xs)
          (Suc (length pre + length xs))
        = Returns (pre @ Some y # map Some xs @ post)"
proof (induction xs arbitrary: d post rule: rev_induct)
  case Nil
  show ?case by simp
next
  case (snoc x xs)
  have nt: "\<not> move_assign_throws E x" and rest: "\<not> list_ex (move_assign_throws E) xs"
    using snoc.prems by simp_all
  obtain y where y:
    "std_move_backward E (pre @ map Some xs @ Some (moved_from E x) # (Some x # post))
       (length pre) (length xs) (Suc (length pre + length xs))
     = Returns (pre @ Some y # map Some xs @ (Some x # post))"
    using snoc.IH [OF rest] by blast
  have upd: "(pre @ map Some (xs @ [x]) @ Some d # post)
               [Suc (length pre + length xs) := Some x,
                length pre + length xs := Some (moved_from E x)]
             = pre @ map Some xs @ Some (moved_from E x) # Some x # post"
    using list_update_length [of "pre @ map Some xs" "Some x" "Some x # post" "Some (moved_from E x)"]
      list_update_length [of "pre @ map Some xs @ [Some x]" "Some d" post "Some x"]
    by simp
  show ?case using nt y upd by (simp add: nth_append)
qed

section \<open>Well-formed vectors\<close>

lemma buffer_vec_of [simp]:
  "buffer_m (data_m (vec_of xs c)) = map Some xs @ replicate (c - length xs) None"
  by (simp add: vec_of_def)

lemma capacity_vec_of [simp]: "capacity_m (data_m (vec_of xs c)) = c"
  by (simp add: vec_of_def)

lemma size_vec_of [simp]: "size_m (vec_of xs c) = length xs"
  by (simp add: vec_of_def)

lemma Capacity_vec_of [simp]: "Capacity (vec_of xs c) = c"
  by (simp add: Capacity_def)

lemma elems_vec_of [simp]: "elems (vec_of xs c) = xs"
  by (simp add: elems_def comp_def)

lemma wf_vec_of [simp]: "length xs \<le> c \<Longrightarrow> wf (vec_of xs c)"
  by (simp add: wf_def)

lemma wf_is_vec_of: "wf v \<Longrightarrow> v = vec_of (elems v) (capacity_m (data_m v))"
proof -
  assume w: "wf v"
  then have len: "length (elems v) = size_m v"
    by (simp add: wf_def elems_def)
  have "buffer_m (data_m v)
          = map Some (elems v) @ replicate (capacity_m (data_m v) - size_m v) None"
    using w by (simp add: wf_def)
  then have "data_m v = data_m (vec_of (elems v) (capacity_m (data_m v)))"
    using len by (simp add: vec_of_def)
  moreover have "size_m v = size_m (vec_of (elems v) (capacity_m (data_m v)))"
    using len by simp
  ultimately show ?thesis by simp
qed

lemma wf_length_elems: "wf v \<Longrightarrow> length (elems v) = size_m v"
  by (simp add: wf_def elems_def)

lemma wf_cases:
  assumes "wf v"
  obtains xs c where "v = vec_of xs c" and "length xs \<le> c"
  using assms wf_is_vec_of [OF assms] wf_length_elems [OF assms]
  by (metis wf_def)

section \<open>The member functions on well-formed vectors\<close>

lemma length_relocation_source [simp]: "length (relocation_source E xs) = length xs"
  by (simp add: relocation_source_def)

lemma relocate_n_spec:
  "n = length xs \<Longrightarrow> first = length spre \<Longrightarrow> d_first = length dpre \<Longrightarrow>
   relocate_n E (spre @ map Some xs @ spost) first n (dpre @ replicate n None @ dpost) d_first
   = (if relocation_throws E xs
      then Throws (spre @ map Some (relocation_source E xs) @ spost,
                   dpre @ replicate n None @ dpost)
      else Returns (spre @ map Some (relocation_source E xs) @ spost,
                    dpre @ map Some xs @ dpost))"
  by (simp add: relocate_n_def relocation_throws_def relocation_source_def uses_move_def
      uninitialized_move_n_spec uninitialized_copy_n_spec)

lemma relocate_n_front:
  "length xs \<le> c \<Longrightarrow>
   relocate_n E (map Some xs @ spost) 0 (length xs) (replicate (length xs) None @ dpost) 0
   = (if relocation_throws E xs
      then Throws (map Some (relocation_source E xs) @ spost, replicate (length xs) None @ dpost)
      else Returns (map Some (relocation_source E xs) @ spost, map Some xs @ dpost))"
  using relocate_n_spec [of "length xs" xs 0 "[]" 0 "[]" E spost dpost] by simp

lemma Allocate_ok:
  "fits E n \<Longrightarrow> \<not> alloc_fails E n \<Longrightarrow> Allocate E n = Some (replicate n None)"
  by (simp add: Allocate_def fits_def)

lemma RawMemory_new_ok:
  "fits E n \<Longrightarrow> \<not> alloc_fails E n \<Longrightarrow>
   RawMemory_new E n = Some \<lparr>buffer_m = replicate n None, capacity_m = n\<rparr>"
  by (simp add: RawMemory_new_def Allocate_ok)

lemma RawMemory_new_capacity: "RawMemory_new E n = Some d \<Longrightarrow> capacity_m d = n"
  by (auto simp: RawMemory_new_def split: option.splits)

lemma RawMemory_new_fails:
  "alloc_fails E n \<Longrightarrow> 0 < n \<Longrightarrow> RawMemory_new E n = None"
  by (simp add: RawMemory_new_def Allocate_def)

lemma replicate_split: "k \<le> n \<Longrightarrow> replicate n x = replicate k x @ replicate (n - k) x"
  by (metis le_add_diff_inverse replicate_add)

lemma Reserve_spec:
  assumes "length xs \<le> c" and ft: "n \<le> c \<or> fits E n"
  shows "Reserve E n (vec_of xs c) =
     (if n \<le> c then Returns (vec_of xs c)
      else if alloc_fails E n then Throws (vec_of xs c, [])
      else if relocation_throws E xs
        then Throws (vec_of (relocation_source E xs) c, replicate n None)
      else Returns (vec_of xs n))"
proof (cases "n \<le> c")
  case True
  then show ?thesis by (simp add: Reserve_def)
next
  case big: False
  show ?thesis
  proof (cases "alloc_fails E n")
    case True
    then show ?thesis using big by (simp add: Reserve_def RawMemory_new_fails)
  next
    case False
    have ft': "fits E n" using ft big by simp
    have le: "length xs \<le> n" using assms big by simp
    have blk: "replicate n None = replicate (length xs) None @ replicate (n - length xs) (None :: 'a option)"
      using le by (rule replicate_split)
    have rel: "relocate_n E (map Some xs @ replicate (c - length xs) None) 0 (length xs)
                 (replicate n None) 0
               = (if relocation_throws E xs
                  then Throws (map Some (relocation_source E xs) @ replicate (c - length xs) None,
                               replicate n None)
                  else Returns (map Some (relocation_source E xs) @ replicate (c - length xs) None,
                                map Some xs @ replicate (n - length xs) None))"
      using relocate_n_front [OF assms(1), of E "replicate (c - length xs) None"
          "replicate (n - length xs) None"] blk by simp
    have dn: "DestroyN (map Some (relocation_source E xs) @ replicate (c - length xs) None) 0 (length xs)
                = Some (replicate (length xs) None @ replicate (c - length xs) None)"
      using DestroyN_front [of "relocation_source E xs" "replicate (c - length xs) None"] by simp
    show ?thesis
      using big False
      by (simp add: Reserve_def RawMemory_new_ok [OF ft' False] rel dn RawMemory_Swap_def
          set_buffer_def vec_of_def)
  qed
qed

lemma PopBack_spec:
  "length xs < c \<Longrightarrow> PopBack (vec_of (xs @ [x]) c) = Returns (vec_of xs c)"
proof -
  assume lt: "length xs < c"
  have r: "replicate (c - length xs) (None :: 'a option) = None # replicate (c - Suc (length xs)) None"
    using lt by (metis Suc_diff_Suc replicate_Suc minus_nat.diff_0 diff_Suc_Suc Suc_diff_le less_eq_Suc_le)
  have "Destroy (map Some xs @ Some x # replicate (c - Suc (length xs)) None) (length xs)
          = Some (map Some xs @ None # replicate (c - Suc (length xs)) None)"
    using Destroy_at [of "map Some xs" x] by simp
  then show ?thesis
    using lt r by (simp add: PopBack_def set_buffer_def vec_of_def)
qed

lemma PopBack_empty: "PopBack (vec_of [] c) = Returns (vec_of [] c)"
  by (simp add: PopBack_def)

lemma PopBack_times_spec:
  "length xs \<le> c \<Longrightarrow> k \<le> length xs \<Longrightarrow>
   PopBack_times k (vec_of xs c) = Returns (vec_of (take (length xs - k) xs) c)"
proof (induction k arbitrary: xs)
  case 0
  then show ?case by simp
next
  case (Suc k)
  then obtain ys y where xs: "xs = ys @ [y]"
    by (metis Suc_le_length_iff rev_exhaust list.distinct(1) append_Nil length_0_conv not_less_eq_eq le0)
  have "PopBack (vec_of (ys @ [y]) c) = Returns (vec_of ys c)"
    using Suc.prems xs by (intro PopBack_spec) simp
  moreover have "PopBack_times k (vec_of ys c) = Returns (vec_of (take (length ys - k) ys) c)"
    using Suc.prems xs by (intro Suc.IH) simp_all
  ultimately show ?case using xs by simp
qed

lemma grown_max: "grown n = max 1 (2 * n)"
  by (simp add: grown_def)

lemma grown_gt: "n < grown n"
  by (simp add: grown_def)

lemma grown_pos: "0 < grown n"
  by (simp add: grown_def)

lemma replicate_at:
  "k < n \<Longrightarrow> (replicate n x)[k := y] = replicate k x @ y # replicate (n - Suc k) x"
proof -
  assume "k < n"
  then have "replicate n x = replicate k x @ x # replicate (n - Suc k) x"
    by (metis Suc_diff_Suc le_add_diff_inverse less_imp_le_nat replicate_Suc replicate_add)
  then show ?thesis
    using list_update_length [of "replicate k x" x "replicate (n - Suc k) x" y] by simp
qed

lemma placement_new_fresh:
  "k < n \<Longrightarrow> placement_new (replicate n None) k x
     = Some (replicate k None @ Some x # replicate (n - Suc k) None)"
  by (simp add: placement_new_def replicate_at)

lemma placement_new_end:
  "length xs < c \<Longrightarrow>
   placement_new (map Some xs @ replicate (c - length xs) None) (length xs) x
     = Some (map Some (xs @ [x]) @ replicate (c - Suc (length xs)) None)"
proof -
  assume lt: "length xs < c"
  then have r: "replicate (c - length xs) (None :: 'a option) = None # replicate (c - Suc (length xs)) None"
    by (metis Suc_diff_Suc replicate_Suc)
  show ?thesis
    using lt list_update_length [of "map Some xs" None "replicate (c - Suc (length xs)) None" "Some x"]
    by (simp add: placement_new_def r)
qed

lemma EmplaceBack_full:
  assumes ft: "fits E (grown (length xs))"
  shows "EmplaceBack E ctor (vec_of xs (length xs)) =
     (if alloc_fails E (grown (length xs)) then Throws (vec_of xs (length xs), [])
      else case ctor of
        None \<Rightarrow> Throws (vec_of xs (length xs), replicate (grown (length xs)) None)
      | Some x \<Rightarrow>
          if relocation_throws E xs
          then Throws (vec_of (relocation_source E xs) (length xs),
                 replicate (length xs) None @ Some x
                   # replicate (grown (length xs) - Suc (length xs)) None)
          else Returns (length xs, vec_of (xs @ [x]) (grown (length xs))))"
proof (cases "alloc_fails E (grown (length xs))")
  case True
  then show ?thesis
    unfolding EmplaceBack_def Let_def grown_def [symmetric]
    by (simp add: RawMemory_new_fails grown_pos)
next
  case ok: False
  show ?thesis
  proof (cases ctor)
    case None
    then show ?thesis using ok
      unfolding EmplaceBack_def Let_def grown_def [symmetric]
      by (simp add: RawMemory_new_ok [OF ft])
  next
    case (Some x)
    have pn: "placement_new (replicate (grown (length xs)) None) (length xs) x
               = Some (replicate (length xs) None @ Some x
                    # replicate (grown (length xs) - Suc (length xs)) None)"
      using grown_gt by (rule placement_new_fresh)
    have rel: "relocate_n E (map Some xs) 0 (length xs)
                 (replicate (length xs) None @ Some x
                    # replicate (grown (length xs) - Suc (length xs)) None) 0
               = (if relocation_throws E xs
                  then Throws (map Some (relocation_source E xs),
                         replicate (length xs) None @ Some x
                           # replicate (grown (length xs) - Suc (length xs)) None)
                  else Returns (map Some (relocation_source E xs),
                         map Some xs @ Some x
                           # replicate (grown (length xs) - Suc (length xs)) None))"
      using relocate_n_front [of xs "length xs" E "[]"] by simp
    have dn: "DestroyN (map Some (relocation_source E xs)) 0 (length xs)
                = Some (replicate (length xs) None)"
      using DestroyN_front [of "relocation_source E xs" "[]"] by simp
    show ?thesis
      using ok Some pn
      unfolding EmplaceBack_def Let_def grown_def [symmetric]
      by (simp add: RawMemory_new_ok [OF ft] rel dn RawMemory_Swap_def set_buffer_def vec_of_def)
  qed
qed

lemma PushBack_as_EmplaceBack:
  "PushBack E x v = drop_iterator (EmplaceBack E (if copy_ctor_throws E x then None else Some x) v)"
  by (simp add: PushBack_def EmplaceBack_def Let_def
      split: option.splits outcome.splits prod.splits)

lemma PushBack_move_as_EmplaceBack:
  "PushBack_move E x v = drop_iterator (EmplaceBack E (if move_ctor_throws E x then None else Some x) v)"
  by (simp add: PushBack_move_def EmplaceBack_def Let_def
      split: option.splits outcome.splits prod.splits)

lemma replicate_diff_Cons: "k < c \<Longrightarrow> replicate (c - k) x = x # replicate (c - Suc k) x"
  by (metis Suc_diff_Suc replicate_Suc)

lemma Emplace_spare_end:
  assumes "length xs < c"
  shows "Emplace E (length xs) ctor (vec_of xs c) =
     (case ctor of
        None \<Rightarrow> Throws (vec_of xs c, [])
      | Some x \<Rightarrow> Returns (length xs, vec_of (xs @ [x]) c))"
  using assms
  by (simp add: Emplace_def vend_def placement_new_end set_buffer_def vec_of_def
      split: option.splits)

lemma Emplace_spare_middle:
  assumes lt: "length (ps @ ms @ [l]) < c"
    and nl: "\<not> move_ctor_throws E l"
    and nms: "\<not> list_ex (move_assign_throws E) ms"
    and nv: "\<not> move_assign_throws E val"
  shows "Emplace E (length ps) (Some val) (vec_of (ps @ ms @ [l]) c)
           = Returns (length ps, vec_of (ps @ val # ms @ [l]) c)"
proof -
  let ?n = "length ps + length ms"
  let ?R = "replicate (c - Suc (Suc ?n)) (None :: 'a option)"
  let ?v = "vec_of (ps @ ms @ [l]) c"
  have r: "replicate (c - Suc ?n) (None :: 'a option) = None # ?R"
    using lt replicate_diff_Cons [of "Suc ?n" c] by simp
  have buf: "buffer_m (data_m ?v) = map Some ps @ map Some ms @ Some l # None # ?R"
    using r by simp
  have last_slot: "(map Some ps @ map Some ms @ Some l # None # ?R) ! ?n = Some l"
    using nth_append_length [of "map Some ps @ map Some ms" "Some l" "None # ?R"]
    by simp
  have upd1: "(map Some ps @ map Some ms @ Some l # None # ?R)[?n := Some (moved_from E l)]
                = map Some ps @ map Some ms @ Some (moved_from E l) # None # ?R"
    using list_update_length [of "map Some ps @ map Some ms" "Some l" "None # ?R"
        "Some (moved_from E l)"]
    by simp
  have pn: "placement_new (map Some ps @ map Some ms @ Some (moved_from E l) # None # ?R)
              (Suc ?n) l
            = Some (map Some ps @ map Some ms @ Some (moved_from E l) # Some l # ?R)"
    using list_update_length [of "map Some ps @ map Some ms @ [Some (moved_from E l)]" None ?R
        "Some l"]
    by (simp add: placement_new_def)
  obtain y where mb:
    "std_move_backward E (map Some ps @ map Some ms @ Some (moved_from E l) # Some l # ?R)
       (length ps) (length ms) (Suc ?n)
     = Returns (map Some ps @ Some y # map Some ms @ Some l # ?R)"
    using std_move_backward_spec [OF nms, of "map Some ps" "moved_from E l" "Some l # ?R"]
    by auto
  have slot: "(map Some ps @ Some y # map Some ms @ Some l # ?R) ! length ps = Some y"
    using nth_append_length [of "map Some ps" "Some y"] by simp
  have upd2: "(map Some ps @ Some y # map Some ms @ Some l # ?R)[length ps := Some val]
                = map Some ps @ Some val # map Some ms @ Some l # ?R"
    using list_update_length [of "map Some ps" "Some y" "map Some ms @ Some l # ?R" "Some val"]
    by simp
  have sz: "size_m ?v = Suc ?n" "capacity_m (data_m ?v) = c"
    by simp_all
  have fin: "(set_buffer ?v (map Some ps @ Some val # map Some ms @ Some l # ?R))
               \<lparr>size_m := Suc (Suc ?n)\<rparr> = vec_of (ps @ val # ms @ [l]) c"
    by (simp add: set_buffer_def vec_of_def)
  show ?thesis
    using lt nl nv
    by (simp add: Emplace_def vend_def sz buf last_slot upd1 pn mb slot upd2 fin
        del: buffer_vec_of size_vec_of capacity_vec_of)
qed

lemma replicate_mid:
  "k < n \<Longrightarrow> replicate n x = replicate k x @ x # replicate (n - Suc k) x"
  by (metis Suc_diff_Suc le_add_diff_inverse less_imp_le_nat replicate_Suc replicate_add)

lemma DestroyN_hits_raw:
  "DestroyN (pre @ Some x # None # rest) (length pre) (Suc (Suc k)) = None"
proof -
  have "Destroy (pre @ [None] @ None # rest) (Suc (length pre)) = None"
    using nth_append_length [of "pre @ [None]" None rest] by (simp add: Destroy_def)
  then show ?thesis by (simp add: Destroy_at)
qed

lemma relocation_throws_Nil [simp]: "\<not> relocation_throws E []"
  by (simp add: relocation_throws_def)

lemma relocation_source_Nil [simp]: "relocation_source E [] = []"
  by (simp add: relocation_source_def)

lemma Emplace_full:
  assumes ft: "fits E (grown (length (ps @ ss)))"
  shows "Emplace E (length ps) ctor (vec_of (ps @ ss) (length (ps @ ss))) =
     (if alloc_fails E (grown (length (ps @ ss))) then Throws (vec_of (ps @ ss) (length (ps @ ss)), [])
      else case ctor of
        None \<Rightarrow> Throws (vec_of (ps @ ss) (length (ps @ ss)),
                  replicate (grown (length (ps @ ss))) None)
      | Some x \<Rightarrow>
          if relocation_throws E ps
          then Throws (vec_of (relocation_source E ps @ ss) (length (ps @ ss)),
                 replicate (grown (length (ps @ ss))) None)
          else if relocation_throws E ss then Undefined
          else Returns (length ps, vec_of (ps @ x # ss) (grown (length (ps @ ss)))))"
proof (cases "alloc_fails E (grown (length (ps @ ss)))")
  case True
  then show ?thesis
    unfolding Emplace_def Let_def grown_def [symmetric]
    by (simp add: RawMemory_new_fails grown_pos)
next
  case ok: False
  let ?n = "length ps + length ss"
  let ?g = "grown ?n"
  have ok': "\<not> alloc_fails E ?g" using ok by simp
  have ft': "fits E ?g" using ft by simp
  show ?thesis
  proof (cases ctor)
    case None
    then show ?thesis using ok
      unfolding Emplace_def Let_def grown_def [symmetric]
      by (simp add: RawMemory_new_ok [OF ft' ok'])
  next
    case (Some x)
    let ?R = "replicate (?g - Suc ?n) (None :: 'a option)"
    let ?T = "replicate (?g - Suc (length ps)) (None :: 'a option)"
    have g: "?n < ?g" by (rule grown_gt)
    have tail: "?T = replicate (length ss) None @ ?R"
    proof -
      have "?g - Suc (length ps) = length ss + (?g - Suc ?n)" using g by simp
      then show ?thesis by (simp add: replicate_add)
    qed
    have pn: "placement_new (replicate ?g None) (length ps) x
               = Some (replicate (length ps) None @ Some x # ?T)"
      using g by (intro placement_new_fresh) simp
    have rel1: "relocate_n E (map Some ps @ map Some ss) 0 (length ps)
                  (replicate (length ps) None @ Some x # ?T) 0
                = (if relocation_throws E ps
                   then Throws (map Some (relocation_source E ps) @ map Some ss,
                          replicate (length ps) None @ Some x # ?T)
                   else Returns (map Some (relocation_source E ps) @ map Some ss,
                          map Some ps @ Some x # ?T))"
      using relocate_n_front [of ps "length ps" E "map Some ss" "Some x # ?T"] by simp
    have d1: "Destroy (replicate (length ps) None @ Some x # ?T) (length ps)
                = Some (replicate ?g None)"
    proof -
      have "replicate ?g (None :: 'a option) = replicate (length ps) None @ None # ?T"
        using g by (intro replicate_mid) simp
      then show ?thesis
        using Destroy_at [of "replicate (length ps) None" x ?T] by simp
    qed
    have rel2: "relocate_n E (map Some (relocation_source E ps) @ map Some ss) (length ps)
                  (length ss) (map Some ps @ Some x # ?T) (Suc (length ps))
                = (if relocation_throws E ss
                   then Throws (map Some (relocation_source E ps) @ map Some (relocation_source E ss),
                          map Some ps @ Some x # ?T)
                   else Returns (map Some (relocation_source E ps) @ map Some (relocation_source E ss),
                          map Some ps @ Some x # map Some ss @ ?R))"
      using relocate_n_spec [of "length ss" ss "length ps" "map Some (relocation_source E ps)"
          "Suc (length ps)" "map Some ps @ [Some x]" E "[]" ?R]
      by (simp add: tail)
    have d2: "relocation_throws E ss \<Longrightarrow>
              DestroyN (map Some ps @ Some x # ?T) (length ps) (Suc (length ss)) = None"
    proof -
      assume "relocation_throws E ss"
      then obtain s ss' where ss: "ss = s # ss'"
        by (cases ss) simp_all
      have "?T = None # replicate (length ss') None @ ?R"
        using tail ss by simp
      then show ?thesis
        using DestroyN_hits_raw [of "map Some ps" x "replicate (length ss') None @ ?R" "length ss'"] ss
        by simp
    qed
    have d3: "DestroyN (map Some (relocation_source E ps) @ map Some (relocation_source E ss)) 0 ?n
                = Some (replicate ?n None)"
      using DestroyN_front [of "relocation_source E ps @ relocation_source E ss" "[]"] by simp
    have fin: "\<lparr>data_m = \<lparr>buffer_m = map Some ps @ Some x # map Some ss @ ?R, capacity_m = ?g\<rparr>,
                 size_m = Suc ?n\<rparr> = vec_of (ps @ x # ss) ?g"
      by (simp add: vec_of_def)
    have thr: "set_buffer (vec_of (ps @ ss) ?n) (map Some (relocation_source E ps) @ map Some ss)
                 = vec_of (relocation_source E ps @ ss) ?n"
      by (simp add: set_buffer_def vec_of_def)
    show ?thesis
      using ok' Some
      unfolding Emplace_def Let_def grown_def [symmetric]
      by (simp add: RawMemory_new_ok [OF ft' ok'] pn rel1 d1 rel2 d2 d3 thr RawMemory_Swap_def fin
          del: DestroyN.simps)
  qed
qed

lemma Erase_spec:
  assumes le: "length (ps @ d # ss) \<le> c"
    and nt: "\<not> list_ex (move_assign_throws E) ss"
  shows "Erase E (length ps) (vec_of (ps @ d # ss) c) = Returns (length ps, vec_of (ps @ ss) c)"
proof -
  let ?n = "length ps + length ss"
  let ?R = "replicate (c - Suc ?n) (None :: 'a option)"
  obtain y where mv:
    "std_move E (map Some ps @ Some d # map Some ss @ ?R) (Suc (length ps)) (length ss) (length ps)
      = Returns (map Some ps @ map Some ss @ Some y # ?R)"
    using std_move_spec [OF nt, of "map Some ps" d ?R] by auto
  have ds: "Destroy (map Some ps @ map Some ss @ Some y # ?R) ?n
              = Some (map Some ps @ map Some ss @ None # ?R)"
    using Destroy_at [of "map Some ps @ map Some ss" y ?R] by simp
  have r: "replicate (c - ?n) (None :: 'a option) = None # ?R"
    using le replicate_diff_Cons [of ?n c] by simp
  have fin: "(set_buffer (vec_of (ps @ d # ss) c) (map Some ps @ map Some ss @ None # ?R))
               \<lparr>size_m := ?n\<rparr> = vec_of (ps @ ss) c"
    using r by (simp add: set_buffer_def vec_of_def)
  have ret: "(if ?n + 1 = 1 then ?n else length ps) = length ps"
    by simp
  show ?thesis
    using le
    by (simp add: Erase_def vend_def vbegin_def mv ds fin Let_def)
qed

lemma Resize_shrink:
  "length xs \<le> c \<Longrightarrow> n < length xs \<Longrightarrow>
   Resize E n (vec_of xs c) = Returns (vec_of (take n xs) c)"
  using PopBack_times_spec [of xs c "length xs - n"]
  by (simp add: Resize_def)

lemma value_construct_tail:
  assumes "length xs \<le> n" "n \<le> c"
  shows "uninitialized_value_construct_n E (map Some xs @ replicate (c - length xs) None)
           (length xs) (n - length xs)
         = (if value_init_throws E \<and> length xs < n
            then Throws (map Some xs @ replicate (c - length xs) None)
            else Returns (map Some (xs @ replicate (n - length xs) (value_init E))
                   @ replicate (c - n) None))"
proof -
  have "c - length xs = (n - length xs) + (c - n)" using assms by simp
  then have sp: "replicate (c - length xs) (None :: 'a option)
                   = replicate (n - length xs) None @ replicate (c - n) None"
    by (simp add: replicate_add)
  show ?thesis
    using uninitialized_value_construct_n_spec [of "length xs" "map Some xs" E "n - length xs"
        "replicate (c - n) None"] assms
    by (simp add: sp)
qed

lemma Resize_grow:
  assumes le: "length xs \<le> c" and gt: "length xs < n" and ft: "n \<le> c \<or> fits E n"
  shows "Resize E n (vec_of xs c) =
     (if n \<le> c then
        (if value_init_throws E then Throws (vec_of xs c, [])
         else Returns (vec_of (xs @ replicate (n - length xs) (value_init E)) c))
      else if alloc_fails E n then Throws (vec_of xs c, [])
      else if relocation_throws E xs
        then Throws (vec_of (relocation_source E xs) c, replicate n None)
      else if value_init_throws E then Throws (vec_of xs n, [])
      else Returns (vec_of (xs @ replicate (n - length xs) (value_init E)) n))"
proof -
  have vc: "\<And>c'. n \<le> c' \<Longrightarrow>
     uninitialized_value_construct_n E (map Some xs @ replicate (c' - length xs) None)
           (length xs) (n - length xs)
         = (if value_init_throws E
            then Throws (map Some xs @ replicate (c' - length xs) None)
            else Returns (map Some (xs @ replicate (n - length xs) (value_init E))
                   @ replicate (c' - n) None))"
    using value_construct_tail [of xs n _ E] gt by simp
  have fin: "\<And>c'. n \<le> c' \<Longrightarrow>
     (set_buffer (vec_of xs c') (map Some (xs @ replicate (n - length xs) (value_init E))
                   @ replicate (c' - n) None))\<lparr>size_m := n\<rparr>
      = vec_of (xs @ replicate (n - length xs) (value_init E)) c'"
    using gt by (simp add: set_buffer_def vec_of_def)
  have same: "\<And>c'. set_buffer (vec_of xs c') (map Some xs @ replicate (c' - length xs) None)
      = vec_of xs c'"
    by (simp add: set_buffer_def vec_of_def)
  show ?thesis
    using gt vc [of c] vc [of n] fin [of c] fin [of n] same
    by (simp add: Resize_def Reserve_spec [OF le ft] del: map_append)
qed

lemma std_move_throws:
  "list_ex (move_assign_throws E) xs \<Longrightarrow>
   \<exists>b. std_move E (pre @ Some d # map Some xs @ post) (Suc (length pre)) (length xs) (length pre)
        = Throws b"
proof (induction xs arbitrary: pre d)
  case Nil
  then show ?case by simp
next
  case (Cons x xs)
  show ?case
  proof (cases "move_assign_throws E x")
    case True
    then show ?thesis by (simp add: nth_append)
  next
    case False
    then have rest: "list_ex (move_assign_throws E) xs" using Cons.prems by simp
    obtain b where b:
      "std_move E ((pre @ [Some x]) @ Some (moved_from E x) # map Some xs @ post)
         (Suc (length (pre @ [Some x]))) (length xs) (length (pre @ [Some x])) = Throws b"
      using Cons.IH [OF rest] by blast
    have upd: "(pre @ Some d # Some x # map Some xs @ post)
                 [length pre := Some x, Suc (length pre) := Some (moved_from E x)]
               = pre @ Some x # Some (moved_from E x) # map Some xs @ post"
      using list_update_length [of "pre @ [Some x]" "Some x" "map Some xs @ post"
          "Some (moved_from E x)"]
      by (simp add: list_update_append)
    show ?thesis using False b upd by (simp add: nth_append)
  qed
qed

lemma Erase_throws:
  assumes le: "length (ps @ d # ss) \<le> c"
    and th: "list_ex (move_assign_throws E) ss"
  shows "\<exists>e. Erase E (length ps) (vec_of (ps @ d # ss) c) = Throws e"
proof -
  obtain b where
    "std_move E (map Some ps @ Some d # map Some ss @ replicate (c - Suc (length ps + length ss)) None)
       (Suc (length ps)) (length ss) (length ps) = Throws b"
    using std_move_throws [OF th, of "map Some ps" d] by auto
  then show ?thesis
    using le by (simp add: Erase_def vend_def)
qed

lemma Vector_dtor_spec:
  "length xs \<le> c \<Longrightarrow> Vector_dtor (vec_of xs c) = Some (replicate c None)"
proof -
  assume le: "length xs \<le> c"
  have "replicate c (None :: 'a option) = replicate (length xs) None @ replicate (c - length xs) None"
    using le by (rule replicate_split)
  then show ?thesis
    using DestroyN_front [of xs "replicate (c - length xs) None"]
    by (simp add: Vector_dtor_def)
qed

lemma PopBack_wf:
  "length xs \<le> c \<Longrightarrow> PopBack (vec_of xs c) = Returns (vec_of (butlast xs) c)"
proof (cases xs rule: rev_cases)
  case Nil
  then show ?thesis by (simp add: PopBack_empty)
next
  case (snoc ys y)
  assume "length xs \<le> c"
  then show ?thesis using snoc PopBack_spec [of ys c y] by simp
qed

subsection \<open>Growth and insertion\<close>

lemma never_throws_on_relocation:
  "never_throws_on E xs \<Longrightarrow> \<not> relocation_throws E xs"
  by (auto simp: never_throws_on_def relocation_throws_def list_all_iff list_ex_iff)

lemma never_throws_on_assign:
  "never_throws_on E xs \<Longrightarrow> \<not> list_ex (move_assign_throws E) xs"
  by (auto simp: never_throws_on_def list_all_iff list_ex_iff)

lemma never_throws_on_append [simp]:
  "never_throws_on E (xs @ ys) \<longleftrightarrow> never_throws_on E xs \<and> never_throws_on E ys"
  by (simp add: never_throws_on_def)

lemma never_throws_on_Cons:
  "never_throws_on E (x # xs) \<longleftrightarrow>
     (\<not> copy_ctor_throws E x \<and> \<not> move_ctor_throws E x \<and> \<not> move_assign_throws E x)
       \<and> never_throws_on E xs"
  by (simp add: never_throws_on_def)

lemma Emplace_returns:
  assumes le: "length xs \<le> c" and pos: "pos \<le> length xs"
    and nt: "never_throws_on E (x # xs)"
    and al: "length xs < c \<or>
             fits E (grown (length xs)) \<and> \<not> alloc_fails E (grown (length xs))"
  shows "Emplace E pos (Some x) (vec_of xs c)
           = Returns (pos, vec_of (take pos xs @ x # drop pos xs)
                             (if length xs < c then c else grown (length xs)))"
proof -
  have ntx: "\<not> move_assign_throws E x" and ntxs: "never_throws_on E xs"
    using nt by (simp_all add: never_throws_on_Cons)
  show ?thesis
  proof (cases "length xs < c")
    case spare: True
    show ?thesis
    proof (cases "pos = length xs")
      case True
      then show ?thesis using spare Emplace_spare_end [OF spare, of E "Some x"] by simp
    next
      case False
      then have lt: "pos < length xs" using pos by simp
      then have ne: "drop pos xs \<noteq> []" by simp
      then obtain ms l where dl: "drop pos xs = ms @ [l]"
        by (metis rev_exhaust)
      have xs: "xs = take pos xs @ ms @ [l]"
        using dl by (metis append_take_drop_id)
      have lp: "length (take pos xs) = pos" using lt by simp
      have nt': "never_throws_on E (take pos xs @ ms @ [l])" using ntxs xs by metis
      then have nl: "\<not> move_ctor_throws E l" and nms: "\<not> list_ex (move_assign_throws E) ms"
        by (simp_all add: never_throws_on_Cons never_throws_on_assign)
      have sp: "length (take pos xs @ ms @ [l]) < c" using spare xs by metis
      have "Emplace E (length (take pos xs)) (Some x) (vec_of (take pos xs @ ms @ [l]) c)
              = Returns (length (take pos xs), vec_of (take pos xs @ x # ms @ [l]) c)"
        using sp nl nms ntx by (rule Emplace_spare_middle)
      then show ?thesis using spare lp dl xs by metis
    qed
  next
    case False
    then have full: "c = length xs" using le by simp
    define ps where "ps = take pos xs"
    define ss where "ss = drop pos xs"
    have xs: "xs = ps @ ss" by (simp add: ps_def ss_def)
    have lp: "length ps = pos" using pos by (simp add: ps_def)
    have nt': "\<not> relocation_throws E ps" "\<not> relocation_throws E ss"
      using ntxs xs by (simp_all add: never_throws_on_relocation)
    have al': "\<not> alloc_fails E (grown (length (ps @ ss)))" using al False xs by simp
    have ft': "fits E (grown (length (ps @ ss)))" using al False xs by simp
    have "Emplace E (length ps) (Some x) (vec_of (ps @ ss) (length (ps @ ss)))
          = Returns (length ps, vec_of (ps @ x # ss) (grown (length (ps @ ss))))"
      using al' nt' Emplace_full [OF ft', of "Some x"] by simp
    then have "Emplace E pos (Some x) (vec_of xs (length xs))
          = Returns (pos, vec_of (ps @ x # ss) (grown (length xs)))"
      using lp xs by simp
    then show ?thesis using full by (simp add: ps_def ss_def)
  qed
qed

lemma Erase_after_insert:
  assumes le: "Suc (length xs) \<le> c" and pos: "pos \<le> length xs"
    and nt: "never_throws_on E xs"
  shows "Erase E pos (vec_of (take pos xs @ x # drop pos xs) c) = Returns (pos, vec_of xs c)"
proof -
  have lp: "length (take pos xs) = pos" using pos by simp
  have le': "length (take pos xs @ x # drop pos xs) \<le> c" using le pos by simp
  have nd: "\<not> list_ex (move_assign_throws E) (drop pos xs)"
    using nt never_throws_on_append [of E "take pos xs" "drop pos xs"]
    by (simp add: never_throws_on_assign)
  show ?thesis using Erase_spec [OF le' nd] lp by simp
qed

lemma EmplaceBack_returns:
  assumes "fits E (grown (length xs))" "\<not> alloc_fails E (grown (length xs))"
    "\<not> relocation_throws E xs"
  shows "EmplaceBack E (Some x) (vec_of xs (length xs))
           = Returns (length xs, vec_of (xs @ [x]) (grown (length xs)))"
  using assms by (simp add: EmplaceBack_full)

lemma relocation_throws_append:
  "relocation_throws E (ps @ ss) \<longleftrightarrow> relocation_throws E ps \<or> relocation_throws E ss"
  by (simp add: relocation_throws_def)

lemma uninit_value_loop_no_block:
  "uninit_value_loop E n [] d c = (if n = 0 then Returns [] else Undefined)"
  by (cases n) simp_all

subsection \<open>The invariant along every call\<close>

lemma inv_Reserve:
  assumes "size_le_capacity v"
  shows "Reserve E n v = Returns v' \<Longrightarrow>
           size_m v' = size_m v \<and> capacity_m (data_m v) \<le> capacity_m (data_m v')
             \<and> n \<le> capacity_m (data_m v')"
    and "Reserve E n v = Throws (v', b) \<Longrightarrow>
           size_m v' = size_m v \<and> capacity_m (data_m v') = capacity_m (data_m v)"
  unfolding Reserve_def
  by (auto simp: RawMemory_Swap_def set_buffer_def
      dest: RawMemory_new_capacity
      split: option.splits outcome.splits prod.splits if_splits)

lemma inv_PopBack:
  "size_le_capacity v \<Longrightarrow> v' \<in> set (after_call (PopBack v)) \<Longrightarrow> size_le_capacity v'"
  unfolding PopBack_def
  by (auto simp: size_le_capacity_def set_buffer_def split: option.splits if_splits)

lemma inv_PopBack_times:
  "size_le_capacity v \<Longrightarrow> v' \<in> set (after_call (PopBack_times k v)) \<Longrightarrow> size_le_capacity v'"
proof (induction k arbitrary: v)
  case 0
  then show ?case by simp
next
  case (Suc k)
  show ?case
  proof (cases "PopBack v")
    case (Returns w)
    then have "size_le_capacity w" using Suc.prems(1) inv_PopBack [of v w] by simp
    then show ?thesis using Suc.IH [of w] Suc.prems(2) Returns by simp
  next
    case (Throws e)
    then show ?thesis using Suc.prems inv_PopBack [of v v'] by (cases e) simp
  next
    case Undefined
    then show ?thesis using Suc.prems by simp
  qed
qed

lemma inv_Resize:
  assumes "size_le_capacity v" and "v' \<in> set (after_call (Resize E n v))"
  shows "size_le_capacity v'"
proof (cases "n = size_m v \<or> n < size_m v")
  case True
  then show ?thesis
    using assms inv_PopBack_times [of v v' "size_m v - n"]
    by (auto simp: Resize_def)
next
  case False
  then have res: "Resize E n v =
        (case Reserve E n v of
           Undefined \<Rightarrow> Undefined
         | Throws e \<Rightarrow> Throws e
         | Returns v1 \<Rightarrow>
             (case uninitialized_value_construct_n E (buffer_m (data_m v1)) (size_m v)
                     (n - size_m v) of
                Undefined \<Rightarrow> Undefined
              | Throws b \<Rightarrow> Throws (set_buffer v1 b, [])
              | Returns b \<Rightarrow> Returns ((set_buffer v1 b)\<lparr>size_m := n\<rparr>)))"
    by (simp add: Resize_def)
  show ?thesis
  proof (cases "Reserve E n v")
    case (Returns v1)
    then show ?thesis
      using assms inv_Reserve(1) [OF assms(1) Returns] res
      by (auto simp: size_le_capacity_def set_buffer_def split: outcome.splits)
  next
    case (Throws e)
    then show ?thesis
      using assms inv_Reserve(2) [OF assms(1), of E n "fst e" "snd e"] res
      by (cases e) (auto simp: size_le_capacity_def)
  next
    case Undefined
    then show ?thesis using assms res by simp
  qed
qed

lemma inv_EmplaceBack:
  "size_le_capacity v \<Longrightarrow> v' \<in> set (after_icall (EmplaceBack E ctor v)) \<Longrightarrow> size_le_capacity v'"
  unfolding EmplaceBack_def Let_def
  by (auto simp: size_le_capacity_def RawMemory_Swap_def set_buffer_def
      dest: RawMemory_new_capacity
      split: option.splits outcome.splits prod.splits if_splits)

lemma after_call_drop_iterator: "after_call (drop_iterator r) = after_icall r"
  by (cases r rule: after_icall.cases) simp_all

lemma inv_Emplace:
  "size_le_capacity v \<Longrightarrow> v' \<in> set (after_icall (Emplace E pos ctor v)) \<Longrightarrow> size_le_capacity v'"
  unfolding Emplace_def Let_def
  by (auto simp: size_le_capacity_def RawMemory_Swap_def set_buffer_def
      dest: RawMemory_new_capacity
      split: option.splits outcome.splits prod.splits if_splits)

lemma inv_Erase:
  "size_le_capacity v \<Longrightarrow> v' \<in> set (after_icall (Erase E pos v)) \<Longrightarrow> size_le_capacity v'"
  unfolding Erase_def Let_def
  by (auto simp: size_le_capacity_def set_buffer_def
      split: option.splits outcome.splits prod.splits if_splits)

lemma inv_Vector_sized: "Vector_sized E n = Returns v \<Longrightarrow> size_le_capacity v"
  unfolding Vector_sized_def
  by (auto simp: size_le_capacity_def dest: RawMemory_new_capacity
      split: option.splits outcome.splits if_splits)

lemma inv_Vector_copy: "Vector_copy E other = Returns v \<Longrightarrow> size_le_capacity v"
  unfolding Vector_copy_def
  by (auto simp: size_le_capacity_def dest: RawMemory_new_capacity
      split: option.splits outcome.splits if_splits)

lemma inv_Swap:
  "size_le_capacity a \<Longrightarrow> size_le_capacity b \<Longrightarrow>
   size_le_capacity (fst (Swap a b)) \<and> size_le_capacity (snd (Swap a b))"
  by (simp add: Swap_def RawMemory_Swap_def size_le_capacity_def)

lemma inv_Vector_default: "size_le_capacity Vector_default"
  by (simp add: size_le_capacity_def Vector_default_def RawMemory_default_def)

lemma inv_copy_assign:
  assumes "size_le_capacity v" and "v' \<in> set (after_call (copy_assign E v rhs))"
  shows "size_le_capacity v'"
proof (cases "size_m rhs > capacity_m (data_m v)")
  case True
  show ?thesis
  proof (cases "Vector_copy E rhs")
    case (Returns rhs_copy)
    then have "size_le_capacity rhs_copy" by (rule inv_Vector_copy)
    then have "size_le_capacity (fst (Swap v rhs_copy))"
      using inv_Swap assms(1) by blast
    then show ?thesis
      using assms(2) True Returns
      by (auto simp: copy_assign_def split: prod.splits option.splits)
  next
    case (Throws b)
    then show ?thesis using assms True by (simp add: copy_assign_def)
  next
    case Undefined
    then show ?thesis using assms True by (simp add: copy_assign_def)
  qed
next
  case False
  then show ?thesis
    using assms unfolding copy_assign_def
    by (auto simp: size_le_capacity_def set_buffer_def
        dest: RawMemory_new_capacity
      split: option.splits outcome.splits if_splits)
qed

lemma inv_step:
  assumes "size_le_capacity v" and "list_all size_le_capacity (call_arguments c)"
    and "v' \<in> set (states_after E c v)"
  shows "size_le_capacity v'"
proof (cases c)
  case (Call_Reserve n)
  then have "v' \<in> set (after_call (Reserve E n v))" using assms(3) by simp
  then show ?thesis
    using inv_Reserve [OF assms(1), of E n v'] assms(1)
    by (cases "Reserve E n v" rule: after_call.cases) (auto simp: size_le_capacity_def)
next
  case (Call_Resize n)
  then show ?thesis using assms inv_Resize by simp
next
  case (Call_PushBack x)
  then show ?thesis
    using assms inv_EmplaceBack [of v v' E]
    by (simp add: PushBack_as_EmplaceBack after_call_drop_iterator)
next
  case (Call_PushBack_move x)
  then show ?thesis
    using assms inv_EmplaceBack [of v v' E]
    by (simp add: PushBack_move_as_EmplaceBack after_call_drop_iterator)
next
  case (Call_EmplaceBack ctor)
  then show ?thesis using assms inv_EmplaceBack by simp
next
  case (Call_Insert pos x)
  then show ?thesis using assms inv_Emplace [of v v' E pos] by (simp add: Insert_def)
next
  case (Call_Insert_move pos x)
  then show ?thesis using assms inv_Emplace [of v v' E pos] by (simp add: Insert_move_def)
next
  case (Call_Emplace pos ctor)
  then show ?thesis using assms inv_Emplace by simp
next
  case (Call_Erase pos)
  then show ?thesis using assms inv_Erase by simp
next
  case Call_PopBack
  then show ?thesis using assms inv_PopBack by simp
next
  case (Call_copy_assign rhs)
  then show ?thesis using assms inv_copy_assign by simp
next
  case Call_copy_assign_self
  then show ?thesis using assms by (simp add: copy_assign_self_def)
next
  case (Call_move_assign rhs)
  then show ?thesis using assms inv_Swap [of v rhs] by (auto simp: move_assign_def)
next
  case (Call_Swap other)
  then show ?thesis using assms inv_Swap [of v other] by auto
qed

lemma reachable_inv: "reachable E v \<Longrightarrow> size_le_capacity v"
proof (induction rule: reachable.induct)
  case by_default
  show ?case by (rule inv_Vector_default)
next
  case (by_size n v)
  then show ?case by (rule inv_Vector_sized)
next
  case (by_copy other v)
  then show ?case using inv_Vector_copy by blast
next
  case (by_move other v)
  then show ?case
    using inv_Swap [OF inv_Vector_default, of other] by (auto simp: Vector_move_def)
next
  case (by_call v c v')
  then have "list_all size_le_capacity (call_arguments c)"
    by (simp add: list_all_iff)
  then show ?case using by_call inv_step by blast
qed

section \<open>The claims\<close>

text \<open>
  Claim C10. Calling \<open>Erase\<close> on an empty vector, with any position, is a no-op:
  the call returns, the size, the capacity and the contents of the vector are unchanged,
  and the iterator returned is \<open>end()\<close>.
\<close>

theorem Erase_on_empty_is_noop:
  "size_m v = 0 \<Longrightarrow> Erase E p v = Returns (vend v, v)"
  by (simp add: Erase_def)

theorem Erase_on_empty_is_noop_witness:
  "size_m (vec_of ([] :: nat list) 3) = 0 \<and>
   Erase plain 2 (vec_of [] 3) = Returns (vend (vec_of ([] :: nat list) 3), vec_of [] 3)"
  using Erase_on_empty_is_noop [of "vec_of ([] :: nat list) 3" plain 2] by simp

text \<open>
  Claim C4 says that a move, by construction or by assignment, leaves the source at
  size 0 and capacity 0. Move assignment is a \<open>Swap\<close>: assigning \<open>[2, 3]\<close> to a vector
  that holds \<open>[1]\<close> leaves the source with size 1 and capacity 1.
\<close>

theorem move_assign_source_counterexample:
  "size_m (snd (move_assign (vec_of [1 :: nat] 1) (vec_of [2, 3] 2))) = 1 \<and>
   Capacity (snd (move_assign (vec_of [1 :: nat] 1) (vec_of [2, 3] 2))) = 1"
  by (simp add: move_assign_def Swap_def RawMemory_Swap_def Capacity_def vec_of_def)

text \<open>
  Claim C4, amended. Move construction leaves the source at size 0 and capacity 0, and
  the new vector is the source as it was: same size, same elements, same capacity. Move
  assignment exchanges the two vectors: the destination becomes what the source was, and
  the source becomes what the destination was.
\<close>

theorem move_exchanges_states:
  "fst (Vector_move other) = other \<and>
   size_m (snd (Vector_move other)) = 0 \<and>
   Capacity (snd (Vector_move other)) = 0 \<and>
   elems (snd (Vector_move other)) = [] \<and>
   move_assign this rhs = (rhs, this)"
  by (simp add: Vector_move_def move_assign_def Swap_def RawMemory_Swap_def Vector_default_def
      RawMemory_default_def Capacity_def elems_def)

text \<open>
  Claim C3 says that \<open>PopBack\<close>, \<open>Erase\<close> and destruction never fail. \<open>Erase\<close> is not
  declared \<open>noexcept\<close> and move-assigns the elements behind the position: when such an
  assignment throws, the exception leaves \<open>Erase\<close>. Here the assignment of the value 2
  throws and \<open>Erase\<close> at the valid position 0 of \<open>[1, 2, 3]\<close> throws.
\<close>

theorem Erase_throws_counterexample:
  "Erase (assign_throws_at 2) 0 (vec_of [1, 2, 3] 3) = Throws (vec_of [1, 2, 3] 3, [])"
  by (simp add: Erase_def vend_def vec_of_def assign_throws_at_def plain_def set_buffer_def)

text \<open>
  Claim C3, amended. On every well-formed vector, empty or not, \<open>PopBack\<close> returns,
  having destroyed the last element if there is one, and the destructor destroys every
  element and fails in no way. \<open>Erase\<close> at a valid position returns, with the element
  at the position removed, exactly when no move assignment of an element behind the
  position throws; otherwise the exception of that assignment leaves \<open>Erase\<close>.
\<close>

theorem PopBack_dtor_Erase_outcomes:
  assumes "wf v"
  shows "PopBack v = Returns (vec_of (butlast (elems v)) (Capacity v)) \<and>
         Vector_dtor v = Some (replicate (Capacity v) None) \<and>
         (p < size_m v \<longrightarrow>
            (if list_ex (move_assign_throws E) (drop (Suc p) (elems v))
             then \<exists>e. Erase E p v = Throws e
             else Erase E p v =
                    Returns (p, vec_of (take p (elems v) @ drop (Suc p) (elems v)) (Capacity v))))"
proof -
  obtain xs c where v: "v = vec_of xs c" and le: "length xs \<le> c"
    using assms by (rule wf_cases)
  have pop: "PopBack v = Returns (vec_of (butlast (elems v)) (Capacity v))"
    using v le by (simp add: PopBack_wf)
  have dtor: "Vector_dtor v = Some (replicate (Capacity v) None)"
    using v le by (simp add: Vector_dtor_spec)
  have erase: "p < size_m v \<longrightarrow>
            (if list_ex (move_assign_throws E) (drop (Suc p) (elems v))
             then \<exists>e. Erase E p v = Throws e
             else Erase E p v =
                    Returns (p, vec_of (take p (elems v) @ drop (Suc p) (elems v)) (Capacity v)))"
  proof
    assume p: "p < size_m v"
    have split: "xs = take p xs @ xs ! p # drop (Suc p) xs" and lp: "length (take p xs) = p"
      using v p by (simp_all add: id_take_nth_drop)
    have le': "length (take p xs @ xs ! p # drop (Suc p) xs) \<le> c"
      using le split by simp
    show "if list_ex (move_assign_throws E) (drop (Suc p) (elems v))
          then \<exists>e. Erase E p v = Throws e
          else Erase E p v =
                 Returns (p, vec_of (take p (elems v) @ drop (Suc p) (elems v)) (Capacity v))"
    proof (cases "list_ex (move_assign_throws E) (drop (Suc p) xs)")
      case True
      then show ?thesis
        using Erase_throws [OF le' True] split lp v by simp
    next
      case False
      then show ?thesis
        using Erase_spec [OF le' False] split lp v by simp
    qed
  qed
  show ?thesis using pop dtor erase by simp
qed

theorem PopBack_dtor_Erase_outcomes_witness:
  "wf (vec_of [1, 2, 3 :: nat] 4) \<and> (1 :: nat) < size_m (vec_of [1, 2, 3 :: nat] 4) \<and>
   PopBack (vec_of [1, 2, 3 :: nat] 4) = Returns (vec_of [1, 2] 4) \<and>
   Vector_dtor (vec_of [1, 2, 3 :: nat] 4) = Some [None, None, None, None] \<and>
   Erase plain 1 (vec_of [1, 2, 3] 4) = Returns (1, vec_of [1, 3] 4) \<and>
   wf (vec_of ([] :: nat list) 2) \<and>
   PopBack (vec_of ([] :: nat list) 2) = Returns (vec_of [] 2) \<and>
   Vector_dtor (vec_of ([] :: nat list) 2) = Some [None, None]"
proof -
  have w: "wf (vec_of [1, 2, 3 :: nat] 4)" and e: "wf (vec_of ([] :: nat list) 2)"
    by simp_all
  have p: "(1 :: nat) < size_m (vec_of [1, 2, 3 :: nat] 4)" by simp
  show ?thesis
    using w e p PopBack_dtor_Erase_outcomes [OF w, of 1 plain]
      PopBack_dtor_Erase_outcomes [OF e, of 0 plain]
    by (simp add: plain_def numeral_eq_Suc)
qed

text \<open>
  Claim C1: a reallocating push or insert whose element constructor throws destroys
  exactly what it has built in the new storage and leaves the vector as it was. The
  source misses this for a copyable element type whose copy constructor throws on the
  value 13, on the vector \<open>[1, 13, 3]\<close> with no spare capacity.
  \<open>PushBack\<close> and \<open>EmplaceBack\<close> have no handler around the transfer (\<open>Emplace\<close> has
  one): the new element 9, built first in slot 3 of the new block, is still alive in the
  block that is released. In \<open>Emplace\<close> the handler of the prefix transfer destroys the
  new element, as the claim says; the handler of the suffix transfer calls
  \<open>DestroyN(new_data.GetAddress() + num_pos, size_ - num_pos + 1)\<close>, which destroys the
  new element and then the slots behind it, which \<open>uninitialized_copy_n\<close> has already
  rolled back, and leaves the prefix constructed: destroying a slot that holds no object
  is undefined behaviour. The vector itself is unchanged where the call throws.
\<close>

theorem reallocating_push_keeps_new_element:
  "is_copy_constructible (copy_throws_at 13) \<and>
   PushBack (copy_throws_at 13) 9 (vec_of [1, 13, 3] 3)
     = Throws (vec_of [1, 13, 3] 3, [None, None, None, Some 9, None, None]) \<and>
   PushBack_move (copy_throws_at 13) 9 (vec_of [1, 13, 3] 3)
     = Throws (vec_of [1, 13, 3] 3, [None, None, None, Some 9, None, None]) \<and>
   EmplaceBack (copy_throws_at 13) (Some 9) (vec_of [1, 13, 3] 3)
     = Throws (vec_of [1, 13, 3] 3, [None, None, None, Some 9, None, None]) \<and>
   Emplace (copy_throws_at 13) 2 (Some 9) (vec_of [1, 13, 3] 3)
     = Throws (vec_of [1, 13, 3] 3, [None, None, None, None, None, None]) \<and>
   Emplace (copy_throws_at 13) 1 (Some 9) (vec_of [1, 13, 3] 3) = Undefined \<and>
   Insert (copy_throws_at 13) 0 9 (vec_of [1, 13, 3] 3) = Undefined"
  by code_simp

text \<open>
  Claim C2 says that copy assignment from a shorter source destroys the trailing
  elements \<open>[source.size, destination.size)\<close>. The source calls
  \<open>DestroyN(data_.GetAddress(), size_ - rhs.size_)\<close>, which destroys the leading
  \<open>size_ - rhs.size_\<close> elements: assigning \<open>[7]\<close> to \<open>[1, 2, 3]\<close> destroys the
  slots 0 and 1, leaves the object in slot 2 alive, and then copy-assigns to slot 0,
  which holds no object any more.
\<close>

theorem copy_assign_destroys_leading_elements:
  "DestroyN (buffer_m (data_m (vec_of [1, 2, 3 :: nat] 3))) 0
      (size_m (vec_of [1, 2, 3 :: nat] 3) - size_m (vec_of [7 :: nat] 1))
     = Some [None, None, Some 3] \<and>
   copy_assign plain (vec_of [1, 2, 3] 3) (vec_of [7] 1) = Undefined"
  by (simp add: copy_assign_def vec_of_def Destroy_def plain_def numeral_eq_Suc)

text \<open>
  Claim C5. On a well-formed vector with no spare slot, when the block of
  \<open>max 1 (2 * capacity)\<close> elements has a byte size that fits \<open>size_t\<close>, its allocation
  succeeds and no constructor throws, each of \<open>PushBack\<close> (both overloads),
  \<open>EmplaceBack\<close>, \<open>Emplace\<close> and \<open>Insert\<close> (both overloads) returns a vector whose
  capacity is \<open>max 1 (2 * old capacity)\<close> and which holds the old elements and the new
  one.
\<close>

theorem growth_doubles_capacity:
  assumes "wf v" and "Capacity v \<le> size_m v"
    and "fits E (max 1 (2 * Capacity v))" and "\<not> alloc_fails E (max 1 (2 * Capacity v))"
    and "\<not> relocation_throws E (elems v)"
  shows "(\<not> copy_ctor_throws E x \<longrightarrow>
            PushBack E x v = Returns (vec_of (elems v @ [x]) (max 1 (2 * Capacity v)))) \<and>
         (\<not> move_ctor_throws E x \<longrightarrow>
            PushBack_move E x v = Returns (vec_of (elems v @ [x]) (max 1 (2 * Capacity v)))) \<and>
         EmplaceBack E (Some x) v =
           Returns (size_m v, vec_of (elems v @ [x]) (max 1 (2 * Capacity v))) \<and>
         (pos \<le> size_m v \<longrightarrow>
            Emplace E pos (Some x) v =
              Returns (pos, vec_of (take pos (elems v) @ x # drop pos (elems v))
                                   (max 1 (2 * Capacity v))) \<and>
            (\<not> copy_ctor_throws E x \<longrightarrow>
               Insert E pos x v =
                 Returns (pos, vec_of (take pos (elems v) @ x # drop pos (elems v))
                                      (max 1 (2 * Capacity v)))) \<and>
            (\<not> move_ctor_throws E x \<longrightarrow>
               Insert_move E pos x v =
                 Returns (pos, vec_of (take pos (elems v) @ x # drop pos (elems v))
                                      (max 1 (2 * Capacity v))))) \<and>
         Capacity (vec_of (elems v @ [x]) (max 1 (2 * Capacity v))) = max 1 (2 * Capacity v) \<and>
         Capacity (vec_of (take pos (elems v) @ x # drop pos (elems v)) (max 1 (2 * Capacity v)))
           = max 1 (2 * Capacity v)"
proof -
  obtain xs c where v: "v = vec_of xs c" and le: "length xs \<le> c"
    using assms(1) by (rule wf_cases)
  have c: "c = length xs" using assms(2) v le by simp
  have g: "max 1 (2 * Capacity v) = grown (length xs)" using v c by (simp add: grown_max)
  have ft: "fits E (grown (length xs))" and al: "\<not> alloc_fails E (grown (length xs))"
    using assms(3,4) g by simp_all
  have nr: "\<not> relocation_throws E xs" using assms(5) v by simp
  have eb: "EmplaceBack E (Some x) v = Returns (size_m v, vec_of (elems v @ [x]) (max 1 (2 * Capacity v)))"
    using EmplaceBack_returns [OF ft al nr] v c g by simp
  have pb: "\<not> copy_ctor_throws E x \<longrightarrow>
            PushBack E x v = Returns (vec_of (elems v @ [x]) (max 1 (2 * Capacity v)))"
    using eb by (simp add: PushBack_as_EmplaceBack)
  have pm: "\<not> move_ctor_throws E x \<longrightarrow>
            PushBack_move E x v = Returns (vec_of (elems v @ [x]) (max 1 (2 * Capacity v)))"
    using eb by (simp add: PushBack_move_as_EmplaceBack)
  have em: "pos \<le> size_m v \<longrightarrow>
            Emplace E pos (Some x) v =
              Returns (pos, vec_of (take pos (elems v) @ x # drop pos (elems v))
                                   (max 1 (2 * Capacity v)))"
  proof
    assume pos: "pos \<le> size_m v"
    define ps where "ps = take pos xs"
    define ss where "ss = drop pos xs"
    have xs: "xs = ps @ ss" by (simp add: ps_def ss_def)
    have lp: "length ps = pos" using pos v by (simp add: ps_def)
    have nr': "\<not> relocation_throws E ps" "\<not> relocation_throws E ss"
      using nr xs relocation_throws_append [of E ps ss] by simp_all
    have ft': "fits E (grown (length (ps @ ss)))" using ft xs by simp
    have al': "\<not> alloc_fails E (grown (length (ps @ ss)))" using al xs by simp
    have "Emplace E (length ps) (Some x) (vec_of (ps @ ss) (length (ps @ ss)))
          = Returns (length ps, vec_of (ps @ x # ss) (grown (length (ps @ ss))))"
      using al' nr' Emplace_full [OF ft', of "Some x"] by simp
    then have "Emplace E pos (Some x) (vec_of xs (length xs))
          = Returns (pos, vec_of (ps @ x # ss) (grown (length xs)))"
      using lp xs by simp
    then show "Emplace E pos (Some x) v =
              Returns (pos, vec_of (take pos (elems v) @ x # drop pos (elems v))
                                   (max 1 (2 * Capacity v)))"
      using v c g by (simp add: ps_def ss_def)
  qed
  show ?thesis
    using eb pb pm em by (simp add: Insert_def Insert_move_def)
qed

theorem growth_doubles_capacity_witness:
  "wf (vec_of [1, 2 :: nat] 2) \<and>
   Capacity (vec_of [1, 2 :: nat] 2) \<le> size_m (vec_of [1, 2 :: nat] 2) \<and>
   fits plain (max 1 (2 * Capacity (vec_of [1, 2 :: nat] 2))) \<and>
   \<not> alloc_fails plain (max 1 (2 * Capacity (vec_of [1, 2 :: nat] 2))) \<and>
   \<not> relocation_throws plain (elems (vec_of [1, 2 :: nat] 2)) \<and>
   \<not> copy_ctor_throws plain 3 \<and> \<not> move_ctor_throws plain 3 \<and>
   (1 :: nat) \<le> size_m (vec_of [1, 2 :: nat] 2) \<and>
   PushBack plain 3 (vec_of [1, 2] 2) = Returns (vec_of [1, 2, 3] 4) \<and>
   PushBack_move plain 3 (vec_of [1, 2] 2) = Returns (vec_of [1, 2, 3] 4) \<and>
   EmplaceBack plain (Some 3) (vec_of [1, 2] 2) = Returns (2, vec_of [1, 2, 3] 4) \<and>
   Emplace plain 1 (Some 3) (vec_of [1, 2] 2) = Returns (1, vec_of [1, 3, 2] 4) \<and>
   Insert plain 1 3 (vec_of [1, 2] 2) = Returns (1, vec_of [1, 3, 2] 4) \<and>
   Insert_move plain 1 3 (vec_of [1, 2] 2) = Returns (1, vec_of [1, 3, 2] 4) \<and>
   Capacity (vec_of [1, 3, 2 :: nat] 4) = max 1 (2 * Capacity (vec_of [1, 2 :: nat] 2))"
proof -
  have a: "wf (vec_of [1, 2 :: nat] 2)"
    and b: "Capacity (vec_of [1, 2 :: nat] 2) \<le> size_m (vec_of [1, 2 :: nat] 2)"
    and c: "fits plain (max 1 (2 * Capacity (vec_of [1, 2 :: nat] 2)))"
    and d: "\<not> alloc_fails plain (max 1 (2 * Capacity (vec_of [1, 2 :: nat] 2)))"
    and e: "\<not> relocation_throws plain (elems (vec_of [1, 2 :: nat] 2))"
    by (simp_all add: plain_def fits_def relocation_throws_def)
  have f: "\<not> copy_ctor_throws plain 3" "\<not> move_ctor_throws plain 3"
    "(1 :: nat) \<le> size_m (vec_of [1, 2 :: nat] 2)"
    by (simp_all add: plain_def)
  show ?thesis
    using a b c d e f growth_doubles_capacity [OF a b c d e, of 3 1]
    by simp
qed

text \<open>
  Claim C6 says that elements are moved when the move constructor is declared
  non-throwing and copied otherwise. The condition of the source is
  \<open>is_nothrow_move_constructible_v<T> || !is_copy_constructible_v<T>\<close>: a type that
  cannot be copied is moved although its move constructor may throw. Here \<open>Reserve\<close>
  moves the element 1 (it is left moved-from, with value 0) before the move of 2 throws.
\<close>

theorem relocation_by_move_counterexample:
  "\<not> is_nothrow_move_constructible (move_only_at 2) \<and>
   Reserve (move_only_at 2) 4 (vec_of [1, 2] 2)
     = Throws (vec_of [0, 2] 2, [None, None, None, None])"
  by code_simp

text \<open>
  Claim C6, amended. In \<open>Reserve\<close> and in a reallocating \<open>PushBack\<close>,
  \<open>EmplaceBack\<close>, \<open>Insert\<close> or \<open>Emplace\<close> the existing elements are move-constructed
  into the new storage when the move constructor is declared non-throwing or the type is
  not copy-constructible, and copy-constructed otherwise. The outcome of each call is
  given in full: in the first case it depends on the move constructor alone, and a
  failure leaves the elements in front of the throwing one moved-from; in the second
  case it depends on the copy constructor alone, and a failure leaves the vector
  unchanged. In \<open>Emplace\<close> this holds for the prefix and for the suffix transfer.
\<close>

theorem relocation_by_move_or_copy:
  assumes "wf v"
  shows "(Capacity v < n \<and> fits E n \<and> \<not> alloc_fails E n \<longrightarrow>
            Reserve E n v =
              (if is_nothrow_move_constructible E \<or> \<not> is_copy_constructible E
               then (if list_ex (move_ctor_throws E) (elems v)
                     then Throws (vec_of (moved_prefix E (elems v)) (Capacity v), replicate n None)
                     else Returns (vec_of (elems v) n))
               else (if list_ex (copy_ctor_throws E) (elems v)
                     then Throws (v, replicate n None)
                     else Returns (vec_of (elems v) n)))) \<and>
         (Capacity v \<le> size_m v \<and> fits E (max 1 (2 * size_m v)) \<and>
          \<not> alloc_fails E (max 1 (2 * size_m v)) \<longrightarrow>
            EmplaceBack E (Some x) v =
              (if is_nothrow_move_constructible E \<or> \<not> is_copy_constructible E
               then (if list_ex (move_ctor_throws E) (elems v)
                     then Throws (vec_of (moved_prefix E (elems v)) (Capacity v),
                            replicate (size_m v) None @ Some x
                              # replicate (max 1 (2 * size_m v) - Suc (size_m v)) None)
                     else Returns (size_m v, vec_of (elems v @ [x]) (max 1 (2 * size_m v))))
               else (if list_ex (copy_ctor_throws E) (elems v)
                     then Throws (v, replicate (size_m v) None @ Some x
                              # replicate (max 1 (2 * size_m v) - Suc (size_m v)) None)
                     else Returns (size_m v, vec_of (elems v @ [x]) (max 1 (2 * size_m v))))) \<and>
            (pos \<le> size_m v \<longrightarrow>
               Emplace E pos (Some x) v =
                 (if is_nothrow_move_constructible E \<or> \<not> is_copy_constructible E
                  then (if list_ex (move_ctor_throws E) (take pos (elems v))
                        then Throws (vec_of (moved_prefix E (take pos (elems v))
                                               @ drop pos (elems v)) (Capacity v),
                               replicate (max 1 (2 * size_m v)) None)
                        else if list_ex (move_ctor_throws E) (drop pos (elems v))
                        then Undefined
                        else Returns (pos, vec_of (take pos (elems v) @ x # drop pos (elems v))
                                             (max 1 (2 * size_m v))))
                  else (if list_ex (copy_ctor_throws E) (take pos (elems v))
                        then Throws (v, replicate (max 1 (2 * size_m v)) None)
                        else if list_ex (copy_ctor_throws E) (drop pos (elems v))
                        then Undefined
                        else Returns (pos, vec_of (take pos (elems v) @ x # drop pos (elems v))
                                             (max 1 (2 * size_m v))))))) \<and>
         PushBack E x v
           = drop_iterator (EmplaceBack E (if copy_ctor_throws E x then None else Some x) v) \<and>
         PushBack_move E x v
           = drop_iterator (EmplaceBack E (if move_ctor_throws E x then None else Some x) v) \<and>
         Insert E pos x v = Emplace E pos (if copy_ctor_throws E x then None else Some x) v \<and>
         Insert_move E pos x v = Emplace E pos (if move_ctor_throws E x then None else Some x) v"
proof -
  obtain xs c where v: "v = vec_of xs c" and le: "length xs \<le> c"
    using assms by (rule wf_cases)
  have reserve: "Capacity v < n \<and> fits E n \<and> \<not> alloc_fails E n \<longrightarrow>
            Reserve E n v =
              (if is_nothrow_move_constructible E \<or> \<not> is_copy_constructible E
               then (if list_ex (move_ctor_throws E) (elems v)
                     then Throws (vec_of (moved_prefix E (elems v)) (Capacity v), replicate n None)
                     else Returns (vec_of (elems v) n))
               else (if list_ex (copy_ctor_throws E) (elems v)
                     then Throws (v, replicate n None)
                     else Returns (vec_of (elems v) n)))"
  proof (intro impI, elim conjE)
    assume big: "Capacity v < n" and ft: "fits E n" and al: "\<not> alloc_fails E n"
    have ft': "n \<le> c \<or> fits E n" using ft by simp
    show "Reserve E n v =
              (if is_nothrow_move_constructible E \<or> \<not> is_copy_constructible E
               then (if list_ex (move_ctor_throws E) (elems v)
                     then Throws (vec_of (moved_prefix E (elems v)) (Capacity v), replicate n None)
                     else Returns (vec_of (elems v) n))
               else (if list_ex (copy_ctor_throws E) (elems v)
                     then Throws (v, replicate n None)
                     else Returns (vec_of (elems v) n)))"
      using v big al
      by (simp add: Reserve_spec [OF le ft'] relocation_throws_def relocation_source_def
          uses_move_def)
  qed
  have full: "Capacity v \<le> size_m v \<and> fits E (max 1 (2 * size_m v)) \<and>
          \<not> alloc_fails E (max 1 (2 * size_m v)) \<longrightarrow>
            EmplaceBack E (Some x) v =
              (if is_nothrow_move_constructible E \<or> \<not> is_copy_constructible E
               then (if list_ex (move_ctor_throws E) (elems v)
                     then Throws (vec_of (moved_prefix E (elems v)) (Capacity v),
                            replicate (size_m v) None @ Some x
                              # replicate (max 1 (2 * size_m v) - Suc (size_m v)) None)
                     else Returns (size_m v, vec_of (elems v @ [x]) (max 1 (2 * size_m v))))
               else (if list_ex (copy_ctor_throws E) (elems v)
                     then Throws (v, replicate (size_m v) None @ Some x
                              # replicate (max 1 (2 * size_m v) - Suc (size_m v)) None)
                     else Returns (size_m v, vec_of (elems v @ [x]) (max 1 (2 * size_m v))))) \<and>
            (pos \<le> size_m v \<longrightarrow>
               Emplace E pos (Some x) v =
                 (if is_nothrow_move_constructible E \<or> \<not> is_copy_constructible E
                  then (if list_ex (move_ctor_throws E) (take pos (elems v))
                        then Throws (vec_of (moved_prefix E (take pos (elems v))
                                               @ drop pos (elems v)) (Capacity v),
                               replicate (max 1 (2 * size_m v)) None)
                        else if list_ex (move_ctor_throws E) (drop pos (elems v))
                        then Undefined
                        else Returns (pos, vec_of (take pos (elems v) @ x # drop pos (elems v))
                                             (max 1 (2 * size_m v))))
                  else (if list_ex (copy_ctor_throws E) (take pos (elems v))
                        then Throws (v, replicate (max 1 (2 * size_m v)) None)
                        else if list_ex (copy_ctor_throws E) (drop pos (elems v))
                        then Undefined
                        else Returns (pos, vec_of (take pos (elems v) @ x # drop pos (elems v))
                                             (max 1 (2 * size_m v))))))"
  proof (intro impI, elim conjE)
    assume "Capacity v \<le> size_m v" and ft0: "fits E (max 1 (2 * size_m v))"
      and al0: "\<not> alloc_fails E (max 1 (2 * size_m v))"
    then have c: "c = length xs" using v le by simp
    have ft: "fits E (grown (length xs))" and al: "\<not> alloc_fails E (grown (length xs))"
      using ft0 al0 v by (simp_all add: grown_max)
    have eb: "EmplaceBack E (Some x) v =
              (if is_nothrow_move_constructible E \<or> \<not> is_copy_constructible E
               then (if list_ex (move_ctor_throws E) (elems v)
                     then Throws (vec_of (moved_prefix E (elems v)) (Capacity v),
                            replicate (size_m v) None @ Some x
                              # replicate (max 1 (2 * size_m v) - Suc (size_m v)) None)
                     else Returns (size_m v, vec_of (elems v @ [x]) (max 1 (2 * size_m v))))
               else (if list_ex (copy_ctor_throws E) (elems v)
                     then Throws (v, replicate (size_m v) None @ Some x
                              # replicate (max 1 (2 * size_m v) - Suc (size_m v)) None)
                     else Returns (size_m v, vec_of (elems v @ [x]) (max 1 (2 * size_m v)))))"
      using v c al
      by (simp add: EmplaceBack_full [OF ft] grown_max relocation_throws_def
          relocation_source_def uses_move_def)
    have em: "pos \<le> size_m v \<longrightarrow>
               Emplace E pos (Some x) v =
                 (if is_nothrow_move_constructible E \<or> \<not> is_copy_constructible E
                  then (if list_ex (move_ctor_throws E) (take pos (elems v))
                        then Throws (vec_of (moved_prefix E (take pos (elems v))
                                               @ drop pos (elems v)) (Capacity v),
                               replicate (max 1 (2 * size_m v)) None)
                        else if list_ex (move_ctor_throws E) (drop pos (elems v))
                        then Undefined
                        else Returns (pos, vec_of (take pos (elems v) @ x # drop pos (elems v))
                                             (max 1 (2 * size_m v))))
                  else (if list_ex (copy_ctor_throws E) (take pos (elems v))
                        then Throws (v, replicate (max 1 (2 * size_m v)) None)
                        else if list_ex (copy_ctor_throws E) (drop pos (elems v))
                        then Undefined
                        else Returns (pos, vec_of (take pos (elems v) @ x # drop pos (elems v))
                                             (max 1 (2 * size_m v)))))"
    proof
      assume pos: "pos \<le> size_m v"
      define ps where "ps = take pos xs"
      define ss where "ss = drop pos xs"
      have xs: "xs = ps @ ss" by (simp add: ps_def ss_def)
      have lp: "length ps = pos" using pos v by (simp add: ps_def)
      have ft': "fits E (grown (length (ps @ ss)))" using ft xs by simp
      have al': "\<not> alloc_fails E (grown (length (ps @ ss)))" using al xs by simp
      have "Emplace E (length ps) (Some x) (vec_of (ps @ ss) (length (ps @ ss)))
            = (if relocation_throws E ps
               then Throws (vec_of (relocation_source E ps @ ss) (length (ps @ ss)),
                      replicate (grown (length (ps @ ss))) None)
               else if relocation_throws E ss then Undefined
               else Returns (length ps, vec_of (ps @ x # ss) (grown (length (ps @ ss)))))"
        using al' Emplace_full [OF ft', of "Some x"] by simp
      then have em': "Emplace E pos (Some x) v
            = (if relocation_throws E ps
               then Throws (vec_of (relocation_source E ps @ ss) c,
                      replicate (grown (length xs)) None)
               else if relocation_throws E ss then Undefined
               else Returns (pos, vec_of (ps @ x # ss) (grown (length xs))))"
        using lp xs v c by simp
      have tk: "take pos (elems v) = ps" "drop pos (elems v) = ss"
        using v by (simp_all add: ps_def ss_def)
      have meta: "size_m v = length xs" "Capacity v = c"
        using v by simp_all
      have vv: "vec_of (ps @ ss) c = v"
        using v xs by simp
      show "Emplace E pos (Some x) v =
                 (if is_nothrow_move_constructible E \<or> \<not> is_copy_constructible E
                  then (if list_ex (move_ctor_throws E) (take pos (elems v))
                        then Throws (vec_of (moved_prefix E (take pos (elems v))
                                               @ drop pos (elems v)) (Capacity v),
                               replicate (max 1 (2 * size_m v)) None)
                        else if list_ex (move_ctor_throws E) (drop pos (elems v))
                        then Undefined
                        else Returns (pos, vec_of (take pos (elems v) @ x # drop pos (elems v))
                                             (max 1 (2 * size_m v))))
                  else (if list_ex (copy_ctor_throws E) (take pos (elems v))
                        then Throws (v, replicate (max 1 (2 * size_m v)) None)
                        else if list_ex (copy_ctor_throws E) (drop pos (elems v))
                        then Undefined
                        else Returns (pos, vec_of (take pos (elems v) @ x # drop pos (elems v))
                                             (max 1 (2 * size_m v)))))"
        unfolding tk meta em'
        by (simp add: grown_max relocation_throws_def relocation_source_def uses_move_def vv)
    qed
    show "EmplaceBack E (Some x) v =
              (if is_nothrow_move_constructible E \<or> \<not> is_copy_constructible E
               then (if list_ex (move_ctor_throws E) (elems v)
                     then Throws (vec_of (moved_prefix E (elems v)) (Capacity v),
                            replicate (size_m v) None @ Some x
                              # replicate (max 1 (2 * size_m v) - Suc (size_m v)) None)
                     else Returns (size_m v, vec_of (elems v @ [x]) (max 1 (2 * size_m v))))
               else (if list_ex (copy_ctor_throws E) (elems v)
                     then Throws (v, replicate (size_m v) None @ Some x
                              # replicate (max 1 (2 * size_m v) - Suc (size_m v)) None)
                     else Returns (size_m v, vec_of (elems v @ [x]) (max 1 (2 * size_m v))))) \<and>
            (pos \<le> size_m v \<longrightarrow>
               Emplace E pos (Some x) v =
                 (if is_nothrow_move_constructible E \<or> \<not> is_copy_constructible E
                  then (if list_ex (move_ctor_throws E) (take pos (elems v))
                        then Throws (vec_of (moved_prefix E (take pos (elems v))
                                               @ drop pos (elems v)) (Capacity v),
                               replicate (max 1 (2 * size_m v)) None)
                        else if list_ex (move_ctor_throws E) (drop pos (elems v))
                        then Undefined
                        else Returns (pos, vec_of (take pos (elems v) @ x # drop pos (elems v))
                                             (max 1 (2 * size_m v))))
                  else (if list_ex (copy_ctor_throws E) (take pos (elems v))
                        then Throws (v, replicate (max 1 (2 * size_m v)) None)
                        else if list_ex (copy_ctor_throws E) (drop pos (elems v))
                        then Undefined
                        else Returns (pos, vec_of (take pos (elems v) @ x # drop pos (elems v))
                                             (max 1 (2 * size_m v))))))"
      using eb em by (rule conjI)
  qed
  have ins: "Insert E pos x v = Emplace E pos (if copy_ctor_throws E x then None else Some x) v"
    "Insert_move E pos x v = Emplace E pos (if move_ctor_throws E x then None else Some x) v"
    by (simp_all add: Insert_def Insert_move_def)
  show ?thesis
    using reserve full PushBack_as_EmplaceBack [of E x v]
      PushBack_move_as_EmplaceBack [of E x v] ins
    by blast
qed

theorem relocation_by_move_or_copy_witness:
  "wf (vec_of [1, 2 :: nat] 2) \<and>
   Capacity (vec_of [1, 2 :: nat] 2) < 4 \<and>
   fits (copy_throws_at 2) 4 \<and> \<not> alloc_fails (copy_throws_at 2) 4 \<and>
   fits (move_only_at 7) 4 \<and> \<not> alloc_fails (move_only_at 7) 4 \<and>
   Capacity (vec_of [1, 2 :: nat] 2) \<le> size_m (vec_of [1, 2 :: nat] 2) \<and>
   fits (copy_throws_at 2) (max 1 (2 * size_m (vec_of [1, 2 :: nat] 2))) \<and>
   \<not> alloc_fails (copy_throws_at 2) (max 1 (2 * size_m (vec_of [1, 2 :: nat] 2))) \<and>
   fits (move_only_at 7) (max 1 (2 * size_m (vec_of [1, 2 :: nat] 2))) \<and>
   \<not> alloc_fails (move_only_at 7) (max 1 (2 * size_m (vec_of [1, 2 :: nat] 2))) \<and>
   (1 :: nat) \<le> size_m (vec_of [1, 2 :: nat] 2) \<and>
   Reserve (copy_throws_at 2) 4 (vec_of [1, 2] 2)
     = Throws (vec_of [1, 2] 2, [None, None, None, None]) \<and>
   EmplaceBack (copy_throws_at 2) (Some 3) (vec_of [1, 2] 2)
     = Throws (vec_of [1, 2] 2, [None, None, Some 3, None]) \<and>
   Reserve (move_only_at 7) 4 (vec_of [1, 2] 2) = Returns (vec_of [1, 2] 4) \<and>
   Emplace (move_only_at 7) 1 (Some 3) (vec_of [1, 2] 2) = Returns (1, vec_of [1, 3, 2] 4)"
proof -
  have w: "wf (vec_of [1, 2 :: nat] 2)" by simp
  have side:
    "Capacity (vec_of [1, 2 :: nat] 2) < 4"
    "fits (copy_throws_at 2) 4" "\<not> alloc_fails (copy_throws_at 2) 4"
    "fits (move_only_at 7) 4" "\<not> alloc_fails (move_only_at 7) 4"
    "Capacity (vec_of [1, 2 :: nat] 2) \<le> size_m (vec_of [1, 2 :: nat] 2)"
    "fits (copy_throws_at 2) (max 1 (2 * size_m (vec_of [1, 2 :: nat] 2)))"
    "\<not> alloc_fails (copy_throws_at 2) (max 1 (2 * size_m (vec_of [1, 2 :: nat] 2)))"
    "fits (move_only_at 7) (max 1 (2 * size_m (vec_of [1, 2 :: nat] 2)))"
    "\<not> alloc_fails (move_only_at 7) (max 1 (2 * size_m (vec_of [1, 2 :: nat] 2)))"
    "(1 :: nat) \<le> size_m (vec_of [1, 2 :: nat] 2)"
    by (simp_all add: fits_def copy_throws_at_def move_only_at_def plain_def)
  have traits:
    "\<not> (is_nothrow_move_constructible (copy_throws_at 2)
          \<or> \<not> is_copy_constructible (copy_throws_at 2))"
    "list_ex (copy_ctor_throws (copy_throws_at 2)) (elems (vec_of [1, 2 :: nat] 2))"
    "is_nothrow_move_constructible (move_only_at 7) \<or> \<not> is_copy_constructible (move_only_at 7)"
    "\<not> list_ex (move_ctor_throws (move_only_at 7)) (elems (vec_of [1, 2 :: nat] 2))"
    "\<not> list_ex (move_ctor_throws (move_only_at 7)) (take 1 (elems (vec_of [1, 2 :: nat] 2)))"
    "\<not> list_ex (move_ctor_throws (move_only_at 7)) (drop 1 (elems (vec_of [1, 2 :: nat] 2)))"
    by (simp_all add: copy_throws_at_def move_only_at_def plain_def)
  note c2 = relocation_by_move_or_copy [OF w, of 4 "copy_throws_at 2" 3 1]
  note m7 = relocation_by_move_or_copy [OF w, of 4 "move_only_at 7" 3 1]
  have r1: "Reserve (copy_throws_at 2) 4 (vec_of [1, 2] 2)
             = Throws (vec_of [1, 2] 2, replicate 4 None)"
    using c2 side traits by presburger
  have e1: "EmplaceBack (copy_throws_at 2) (Some 3) (vec_of [1, 2] 2)
             = Throws (vec_of [1, 2] 2,
                 replicate (size_m (vec_of [1, 2 :: nat] 2)) None @ Some 3
                   # replicate (max 1 (2 * size_m (vec_of [1, 2 :: nat] 2))
                        - Suc (size_m (vec_of [1, 2 :: nat] 2))) None)"
    using c2 side traits by presburger
  have r2: "Reserve (move_only_at 7) 4 (vec_of [1, 2] 2)
             = Returns (vec_of (elems (vec_of [1, 2 :: nat] 2)) 4)"
    using m7 side traits by presburger
  have e2: "Emplace (move_only_at 7) 1 (Some 3) (vec_of [1, 2] 2)
             = Returns (1, vec_of (take 1 (elems (vec_of [1, 2 :: nat] 2)) @ 3
                                     # drop 1 (elems (vec_of [1, 2 :: nat] 2)))
                                  (max 1 (2 * size_m (vec_of [1, 2 :: nat] 2))))"
    using m7 side traits by presburger
  show ?thesis
    using w side r1 e1 r2 e2 by (simp add: numeral_eq_Suc)
qed

text \<open>
  Claim C7. Every vector reached from the constructors by calls of the public
  interface has \<open>size_ \<le> capacity_\<close>; and every constructor yields, and every call
  (returning or throwing) leaves, a vector with \<open>size_ \<le> capacity_\<close> when the vector
  it is called on and its vector arguments have it.
\<close>

theorem size_never_exceeds_capacity:
  "(reachable E v \<longrightarrow> size_m v \<le> Capacity v) \<and>
   (size_m v \<le> Capacity v \<and> list_all (\<lambda>a. size_m a \<le> Capacity a) (call_arguments c) \<and>
      v' \<in> set (states_after E c v) \<longrightarrow> size_m v' \<le> Capacity v') \<and>
   size_m (Vector_default :: 'a Vector) \<le> Capacity (Vector_default :: 'a Vector) \<and>
   (Vector_sized E n = Returns w \<longrightarrow> size_m w \<le> Capacity w) \<and>
   (Vector_copy E other = Returns w \<longrightarrow> size_m w \<le> Capacity w) \<and>
   (size_m other \<le> Capacity other \<longrightarrow>
      size_m (fst (Vector_move other)) \<le> Capacity (fst (Vector_move other)) \<and>
      size_m (snd (Vector_move other)) \<le> Capacity (snd (Vector_move other)))"
proof -
  have 1: "reachable E v \<longrightarrow> size_m v \<le> Capacity v"
    using reachable_inv [of E v] by (simp add: size_le_capacity_def Capacity_def)
  have 2: "size_m v \<le> Capacity v \<and> list_all (\<lambda>a. size_m a \<le> Capacity a) (call_arguments c) \<and>
      v' \<in> set (states_after E c v) \<longrightarrow> size_m v' \<le> Capacity v'"
    using inv_step [of v c v' E] by (simp add: size_le_capacity_def [abs_def] Capacity_def)
  have 3: "size_m (Vector_default :: 'a Vector) \<le> Capacity (Vector_default :: 'a Vector)"
    using inv_Vector_default [where ?'a = 'a] by (simp add: size_le_capacity_def Capacity_def)
  have 4: "Vector_sized E n = Returns w \<longrightarrow> size_m w \<le> Capacity w"
    using inv_Vector_sized [of E n w] by (simp add: size_le_capacity_def Capacity_def)
  have 5: "Vector_copy E other = Returns w \<longrightarrow> size_m w \<le> Capacity w"
    using inv_Vector_copy [of E other w] by (simp add: size_le_capacity_def Capacity_def)
  have 6: "size_m other \<le> Capacity other \<longrightarrow>
      size_m (fst (Vector_move other)) \<le> Capacity (fst (Vector_move other)) \<and>
      size_m (snd (Vector_move other)) \<le> Capacity (snd (Vector_move other))"
    using inv_Swap [OF inv_Vector_default, of other]
    by (simp add: Vector_move_def size_le_capacity_def Capacity_def)
  show ?thesis using 1 2 3 4 5 6 by blast
qed

theorem size_never_exceeds_capacity_witness:
  "reachable plain (vec_of [1] 1) \<and>
   size_m (vec_of [1 :: nat] 1) \<le> Capacity (vec_of [1 :: nat] 1) \<and>
   list_all (\<lambda>a. size_m a \<le> Capacity a) (call_arguments (Call_PushBack (2 :: nat))) \<and>
   vec_of [1, 2] 2 \<in> set (states_after plain (Call_PushBack 2) (vec_of [1] 1)) \<and>
   size_m (vec_of [1, 2 :: nat] 2) \<le> Capacity (vec_of [1, 2 :: nat] 2) \<and>
   Vector_sized plain 3 = Returns (vec_of [0, 0, 0] 3) \<and>
   Vector_copy plain (vec_of [1] 1) = Returns (vec_of [1] 1) \<and>
   size_m (vec_of [0, 0, 0 :: nat] 3) \<le> Capacity (vec_of [0, 0, 0 :: nat] 3)"
proof -
  have m1: "vec_of [1] 1 \<in> set (states_after plain (Call_PushBack 1) Vector_default)"
    by code_simp
  have r: "reachable plain (vec_of [1] 1)"
    using reachable.by_call [OF reachable.by_default _ m1] by simp
  have m2: "vec_of [1, 2] 2 \<in> set (states_after plain (Call_PushBack 2) (vec_of [1] 1))"
    by code_simp
  have a: "list_all (\<lambda>a. size_m a \<le> Capacity a) (call_arguments (Call_PushBack (2 :: nat)))"
    by simp
  have s: "Vector_sized plain 3 = Returns (vec_of [0, 0, 0] 3)"
    "Vector_copy plain (vec_of [1] 1) = Returns (vec_of [1] 1)"
    by code_simp+
  note inst = size_never_exceeds_capacity
    [of plain "vec_of [1] 1" "Call_PushBack 2" "vec_of [1, 2] 2" 3 "vec_of [0, 0, 0] 3" "vec_of [1] 1"]
  have c1: "size_m (vec_of [1 :: nat] 1) \<le> Capacity (vec_of [1 :: nat] 1)"
    using inst r by blast
  have c2: "size_m (vec_of [1, 2 :: nat] 2) \<le> Capacity (vec_of [1, 2 :: nat] 2)"
    using inst c1 a m2 by blast
  have c3: "size_m (vec_of [0, 0, 0 :: nat] 3) \<le> Capacity (vec_of [0, 0, 0 :: nat] 3)"
    using inst s(1) by blast
  show ?thesis using r c1 a m2 c2 s c3 by blast
qed






end
